theory Spec2Isabelle
  imports Complex_Main "HOL-Library.Log_Nat"
begin

section \<open>Characters and strings\<close>

text \<open>
  Source text is a \<^typ>\<open>string\<close>; a \<^typ>\<open>char\<close> stands for one Python code point in the
  range 0..255. The character classes below are those of Python's \<open>str\<close> and \<open>re\<close> on
  that range.
\<close>

definition code :: "char \<Rightarrow> nat" where
  "code c = of_char c"

text \<open>\<open>str.isspace\<close>, which is also the class \<open>\s\<close> of \<open>re\<close>.\<close>

definition is_space :: "char \<Rightarrow> bool" where
  "is_space c = (let n = code c in (9 \<le> n \<and> n \<le> 13) \<or> (28 \<le> n \<and> n \<le> 32) \<or> n = 133 \<or> n = 160)"

definition is_digit :: "char \<Rightarrow> bool" where
  "is_digit c = (let n = code c in 48 \<le> n \<and> n \<le> 57)"

text \<open>The class \<open>[A-Za-z]\<close>.\<close>

definition is_alpha :: "char \<Rightarrow> bool" where
  "is_alpha c = (let n = code c in (65 \<le> n \<and> n \<le> 90) \<or> (97 \<le> n \<and> n \<le> 122))"

text \<open>
  The class \<open>\w\<close>: the underscore and every code point for which \<open>str.isalnum\<close> holds,
  which below 256 are the ASCII letters and digits and the Latin-1 letters and numerics.
\<close>

definition is_word :: "char \<Rightarrow> bool" where
  "is_word c = (let n = code c in
     is_alpha c \<or> is_digit c \<or> n = 95 \<or> n = 170 \<or> n = 178 \<or> n = 179 \<or> n = 181 \<or>
     n = 185 \<or> n = 186 \<or> (188 \<le> n \<and> n \<le> 190) \<or> (192 \<le> n \<and> n \<le> 214) \<or>
     (216 \<le> n \<and> n \<le> 246) \<or> 248 \<le> n)"

text \<open>The class \<open>.\<close> (no DOTALL flag): everything but the line feed.\<close>

definition is_any :: "char \<Rightarrow> bool" where
  "is_any c = (c \<noteq> CHR 0x0A)"

text \<open>\<open>str.lower\<close> on one ASCII letter; used for case-insensitive literals and for
  \<open>m.group(2).lower()\<close>, both of which only ever meet the letters of the keywords.\<close>

definition lower_char :: "char \<Rightarrow> char" where
  "lower_char c =
     (case map_of (zip ''ABCDEFGHIJKLMNOPQRSTUVWXYZ'' ''abcdefghijklmnopqrstuvwxyz'') c of
        Some l \<Rightarrow> l
      | None \<Rightarrow> c)"

definition lower :: "string \<Rightarrow> string" where
  "lower s = map lower_char s"

text \<open>\<open>str.strip()\<close>: drop leading and trailing whitespace.\<close>

definition strip :: "string \<Rightarrow> string" where
  "strip s = rev (dropWhile is_space (rev (dropWhile is_space s)))"

text \<open>
  \<open>str.splitlines()\<close>: the text is cut at every line boundary (\<open>\n\<close>, \<open>\r\<close>, \<open>\r\n\<close>,
  \<open>\v\<close>, \<open>\f\<close>, \<open>\x1c\<close>, \<open>\x1d\<close>, \<open>\x1e\<close>, \<open>\x85\<close>); the boundaries are dropped and a
  final boundary does not open an empty last line.
\<close>

definition is_linebreak :: "char \<Rightarrow> bool" where
  "is_linebreak c = (let n = code c in (10 \<le> n \<and> n \<le> 13) \<or> (28 \<le> n \<and> n \<le> 30) \<or> n = 133)"

fun splitlines_aux :: "string \<Rightarrow> string \<Rightarrow> string list" where
  "splitlines_aux cur [] = (if cur = [] then [] else [rev cur])"
| "splitlines_aux cur (c # cs) =
     (if c = CHR 0x0D \<and> cs \<noteq> [] \<and> hd cs = CHR 0x0A then rev cur # splitlines_aux [] (tl cs)
      else if is_linebreak c then rev cur # splitlines_aux [] cs
      else splitlines_aux (c # cur) cs)"

definition splitlines :: "string \<Rightarrow> string list" where
  "splitlines s = splitlines_aux [] s"

section \<open>Regular expressions\<close>

text \<open>
  The fragment of \<open>re\<close> the interpreter's five patterns use: character classes,
  literals (case-insensitive under \<open>re.IGNORECASE\<close>), greedy and lazy repetition of a
  class, sequence, alternation, capturing groups and \<open>$\<close>. The matcher is the
  backtracking matcher of \<open>re\<close>: alternatives are tried in order, a greedy repetition
  tries the longest run first and a lazy one the shortest, and the first complete path
  wins. \<open>k\<close> is the rest of the pattern.
\<close>

datatype regex =
    Cls "char \<Rightarrow> bool"
  | Lit bool string
  | Rep bool "char \<Rightarrow> bool"
  | Seq regex regex
  | Alt regex regex
  | Grp nat regex
  | Eol

type_synonym groups = "nat \<Rightarrow> string option"

fun lit_match :: "bool \<Rightarrow> string \<Rightarrow> string \<Rightarrow> string option" where
  "lit_match ci [] s = Some s"
| "lit_match ci (p # ps) [] = None"
| "lit_match ci (p # ps) (c # cs) =
     (if (if ci then lower_char c = lower_char p else c = p) then lit_match ci ps cs else None)"

fun rep_greedy :: "(char \<Rightarrow> bool) \<Rightarrow> string \<Rightarrow> (string \<Rightarrow> 'a option) \<Rightarrow> 'a option" where
  "rep_greedy p [] k = k []"
| "rep_greedy p (c # cs) k =
     (if p c then (case rep_greedy p cs k of Some r \<Rightarrow> Some r | None \<Rightarrow> k (c # cs))
      else k (c # cs))"

fun rep_lazy :: "(char \<Rightarrow> bool) \<Rightarrow> string \<Rightarrow> (string \<Rightarrow> 'a option) \<Rightarrow> 'a option" where
  "rep_lazy p [] k = k []"
| "rep_lazy p (c # cs) k =
     (case k (c # cs) of Some r \<Rightarrow> Some r | None \<Rightarrow> if p c then rep_lazy p cs k else None)"

fun rx :: "regex \<Rightarrow> string \<Rightarrow> groups \<Rightarrow> (string \<Rightarrow> groups \<Rightarrow> groups option) \<Rightarrow> groups option" where
  "rx (Cls p) s g k = (case s of [] \<Rightarrow> None | c # cs \<Rightarrow> if p c then k cs g else None)"
| "rx (Lit ci l) s g k = (case lit_match ci l s of None \<Rightarrow> None | Some s' \<Rightarrow> k s' g)"
| "rx (Rep greedy p) s g k =
     (if greedy then rep_greedy p s (\<lambda>s'. k s' g) else rep_lazy p s (\<lambda>s'. k s' g))"
| "rx (Seq a b) s g k = rx a s g (\<lambda>s' g'. rx b s' g' k)"
| "rx (Alt a b) s g k = (case rx a s g k of Some r \<Rightarrow> Some r | None \<Rightarrow> rx b s g k)"
| "rx (Grp n a) s g k = rx a s g (\<lambda>s' g'. k s' (g'(n \<mapsto> take (length s - length s') s)))"
| "rx Eol s g k = (if s = [] \<or> s = [CHR 0x0A] then k s g else None)"

text \<open>\<open>pattern.match(s)\<close>: the match is anchored at index 0 (so a leading \<open>^\<close> adds
  nothing and is left out of the patterns below) and need not reach the end of \<open>s\<close>.\<close>

definition re_match :: "regex \<Rightarrow> string \<Rightarrow> groups option" where
  "re_match r s = rx r s (\<lambda>_. None) (\<lambda>s' g. Some g)"

text \<open>\<open>m.group(n)\<close> of a group that took part in the match.\<close>

definition grp :: "groups \<Rightarrow> nat \<Rightarrow> string" where
  "grp g n = (case g n of Some s \<Rightarrow> s | None \<Rightarrow> [])"

fun seqs :: "regex list \<Rightarrow> regex" where
  "seqs [] = Lit False []"
| "seqs [r] = r"
| "seqs (r # rs) = Seq r (seqs rs)"

abbreviation ws :: regex where "ws \<equiv> Rep True is_space"

abbreviation ident :: regex where "ident \<equiv> Seq (Cls is_alpha) (Rep True is_word)"

text \<open>\<open>^\s*([A-Za-z]\w*)\s*:\s*(integer|double)\s*;\s*$\<close>, IGNORECASE\<close>

definition RE_DECL :: regex where
  "RE_DECL = seqs [ws, Grp 1 ident, ws, Lit True '':'', ws,
     Grp 2 (Alt (Lit True ''integer'') (Lit True ''double'')), ws, Lit True '';'', ws, Eol]"

text \<open>\<open>^\s*([A-Za-z]\w*)\s*(?::=|=)\s*(.+?)\s*;\s*$\<close>, IGNORECASE\<close>

definition RE_ASSIGN :: regex where
  "RE_ASSIGN = seqs [ws, Grp 1 ident, ws, Alt (Lit True '':='') (Lit True ''=''), ws,
     Grp 2 (Seq (Cls is_any) (Rep False is_any)), ws, Lit True '';'', ws, Eol]"

text \<open>\<open>^\s*output\s*<<\s*(.+?)\s*;\s*$\<close>, IGNORECASE\<close>

definition RE_OUTPUT :: regex where
  "RE_OUTPUT = seqs [ws, Lit True ''output'', ws, Lit True ''<<'', ws,
     Grp 1 (Seq (Cls is_any) (Rep False is_any)), ws, Lit True '';'', ws, Eol]"

text \<open>\<open>^\s*if\s*\(\s*(.+?)\s*\)\s*(.+)$\<close>, IGNORECASE\<close>

definition RE_IF :: regex where
  "RE_IF = seqs [ws, Lit True ''if'', ws, Lit True ''('', ws,
     Grp 1 (Seq (Cls is_any) (Rep False is_any)), ws, Lit True '')'', ws,
     Grp 2 (Seq (Cls is_any) (Rep True is_any)), Eol]"

text \<open>\<open>^\s*(.+?)\s*(==|!=|>|<)\s*(.+?)\s*$\<close>\<close>

definition RE_COND :: regex where
  "RE_COND = seqs [ws, Grp 1 (Seq (Cls is_any) (Rep False is_any)), ws,
     Grp 2 (Alt (Lit False ''=='') (Alt (Lit False ''!='') (Alt (Lit False ''>'') (Lit False ''<'')))),
     ws, Grp 3 (Seq (Cls is_any) (Rep False is_any)), ws, Eol]"



section \<open>Python values\<close>

text \<open>
  What \<open>eval\<close> can return on the characters that reach it (digits, \<open>.\<close>, \<open>+\<close>,
  \<open>-\<close>, parentheses, whitespace): an \<open>int\<close> (unbounded), a \<open>float\<close>, the empty tuple
  \<open>()\<close> and \<open>Ellipsis\<close> (\<open>...\<close>).

  A \<open>float\<close> is an IEEE 754 binary64 number. \<open>Fin neg m e\<close> is the finite number
  \<open>(-1)^neg * m * 2^e\<close>, kept canonical (\<open>m\<close> odd, or \<open>m = 0\<close> and \<open>e = 0\<close>), so that
  \<open>Fin True 0 0\<close> is \<open>-0.0\<close>; \<open>Inf neg\<close> is an infinity and \<open>NaN\<close> a not-a-number.
\<close>

datatype pyfloat = Fin bool nat int | Inf bool | NaN

datatype pyval = PInt int | PFloat pyfloat | PTuple | PEllipsis

datatype pyexc = TypeError | OverflowError | ValueError

function norm_me :: "nat \<Rightarrow> int \<Rightarrow> nat \<times> int" where
  "norm_me m e = (if m = 0 then (0, 0) else if even m then norm_me (m div 2) (e + 1) else (m, e))"
  by pat_completeness auto
termination
  by (relation "measure fst") auto

declare norm_me.simps [simp del]

text \<open>The integer nearest to \<open>p / q\<close> (for \<open>q > 0\<close>), a tie going to the even one.\<close>

definition round_half_even :: "nat \<Rightarrow> nat \<Rightarrow> nat" where
  "round_half_even p q = (let n = p div q; r = p mod q in
     if q < 2 * r \<or> (2 * r = q \<and> odd n) then n + 1 else n)"

text \<open>\<open>scaled_ge p q k\<close>: \<open>p / q \<ge> 2^k\<close>.\<close>

definition scaled_ge :: "nat \<Rightarrow> nat \<Rightarrow> int \<Rightarrow> bool" where
  "scaled_ge p q k = (if 0 \<le> k then q * 2 ^ nat k \<le> p else q \<le> p * 2 ^ nat (- k))"

text \<open>
  The binary64 number nearest to \<open>(-1)^neg * p / q\<close> (round to nearest, ties to even):
  53 significant bits, least exponent \<open>-1074\<close> (subnormals), and an infinity from
  \<open>2^1024\<close> on. This is the rounding of a float literal, of \<open>float(int)\<close> and of every
  float addition.
\<close>

definition round_fl :: "bool \<Rightarrow> nat \<Rightarrow> nat \<Rightarrow> pyfloat" where
  "round_fl neg p q =
     (if p = 0 then Fin neg 0 0
      else let e0 = bitlen (int p) - bitlen (int q) - 53;
               e1 = (if scaled_ge p q (e0 + 53) then e0 + 1 else e0);
               e = max e1 (- 1074);
               n = (if 0 \<le> e then round_half_even p (q * 2 ^ nat e)
                    else round_half_even (p * 2 ^ nat (- e)) q)
           in if 971 < e \<or> (e = 971 \<and> 2 ^ 53 \<le> n) then Inf neg
              else (case norm_me n e of (m, e') \<Rightarrow> Fin neg m e'))"

text \<open>\<open>float(v)\<close> for an \<open>int\<close>: OverflowError when the nearest double is out of range.\<close>

definition float_of_int :: "int \<Rightarrow> pyexc + pyfloat" where
  "float_of_int v = (case round_fl (v < 0) (nat \<bar>v\<bar>) 1 of Inf _ \<Rightarrow> Inl OverflowError | f \<Rightarrow> Inr f)"

text \<open>\<open>float(val)\<close>: TypeError for a tuple or \<open>Ellipsis\<close>.\<close>

fun py_float :: "pyval \<Rightarrow> pyexc + pyfloat" where
  "py_float (PInt v) = float_of_int v"
| "py_float (PFloat f) = Inr f"
| "py_float PTuple = Inl TypeError"
| "py_float PEllipsis = Inl TypeError"

definition signed :: "bool \<Rightarrow> nat \<Rightarrow> int" where
  "signed neg m = (if neg then - int m else int m)"

fun fl_neg :: "pyfloat \<Rightarrow> pyfloat" where
  "fl_neg (Fin s m e) = Fin (\<not> s) m e"
| "fl_neg (Inf s) = Inf (\<not> s)"
| "fl_neg NaN = NaN"

text \<open>Float addition: the exact sum, rounded. An exact zero sum is \<open>+0.0\<close> unless both
  operands are negative zeros.\<close>

fun fl_add :: "pyfloat \<Rightarrow> pyfloat \<Rightarrow> pyfloat" where
  "fl_add (Fin s1 m1 e1) (Fin s2 m2 e2) =
     (let e = min e1 e2;
          t = signed s1 (m1 * 2 ^ nat (e1 - e)) + signed s2 (m2 * 2 ^ nat (e2 - e))
      in if t = 0 then Fin (s1 \<and> s2) 0 0
         else if 0 \<le> e then round_fl (t < 0) (nat \<bar>t\<bar> * 2 ^ nat e) 1
         else round_fl (t < 0) (nat \<bar>t\<bar>) (2 ^ nat (- e)))"
| "fl_add (Inf a) (Inf b) = (if a = b then Inf a else NaN)"
| "fl_add (Inf a) (Fin _ _ _) = Inf a"
| "fl_add (Fin _ _ _) (Inf b) = Inf b"
| "fl_add NaN _ = NaN"
| "fl_add _ NaN = NaN"

definition fl_sub :: "pyfloat \<Rightarrow> pyfloat \<Rightarrow> pyfloat" where
  "fl_sub x y = fl_add x (fl_neg y)"

text \<open>\<open>float.is_integer()\<close>\<close>

fun fl_is_integer :: "pyfloat \<Rightarrow> bool" where
  "fl_is_integer (Fin s m e) = (0 \<le> e)"
| "fl_is_integer _ = False"

text \<open>\<open>int(f)\<close>: truncation towards zero; OverflowError on an infinity, ValueError on NaN.\<close>

fun fl_int :: "pyfloat \<Rightarrow> pyexc + int" where
  "fl_int (Fin s m e) = Inr (signed s (if 0 \<le> e then m * 2 ^ nat e else m div 2 ^ nat (- e)))"
| "fl_int (Inf _) = Inl OverflowError"
| "fl_int NaN = Inl ValueError"

text \<open>\<open>round(f)\<close> with one argument: the nearest \<open>int\<close>, a tie going to the even one.\<close>

fun py_round :: "pyfloat \<Rightarrow> pyexc + int" where
  "py_round (Fin s m e) =
     Inr (signed s (if 0 \<le> e then m * 2 ^ nat e else round_half_even m (2 ^ nat (- e))))"
| "py_round (Inf _) = Inl OverflowError"
| "py_round NaN = Inl ValueError"

text \<open>The real number that \<open>Fin s m e\<close> stands for.\<close>

definition fin_value :: "bool \<Rightarrow> nat \<Rightarrow> int \<Rightarrow> real" where
  "fin_value s m e =
     (if 0 \<le> e then real_of_int (signed s m) * 2 ^ nat e
      else real_of_int (signed s m) / 2 ^ nat (- e))"

subsection \<open>Arithmetic of \<open>eval\<close>\<close>

fun py_pos :: "pyval \<Rightarrow> pyexc + pyval" where
  "py_pos (PInt v) = Inr (PInt v)"
| "py_pos (PFloat f) = Inr (PFloat f)"
| "py_pos _ = Inl TypeError"

fun py_neg :: "pyval \<Rightarrow> pyexc + pyval" where
  "py_neg (PInt v) = Inr (PInt (- v))"
| "py_neg (PFloat f) = Inr (PFloat (fl_neg f))"
| "py_neg _ = Inl TypeError"

text \<open>\<open>a + b\<close>: an \<open>int\<close> meeting a \<open>float\<close> is converted first (OverflowError when
  too large); two tuples concatenate; everything else is a TypeError.\<close>

fun py_add :: "pyval \<Rightarrow> pyval \<Rightarrow> pyexc + pyval" where
  "py_add (PInt a) (PInt b) = Inr (PInt (a + b))"
| "py_add (PFloat x) (PFloat y) = Inr (PFloat (fl_add x y))"
| "py_add (PInt a) (PFloat y) =
     (case float_of_int a of Inl ex \<Rightarrow> Inl ex | Inr x \<Rightarrow> Inr (PFloat (fl_add x y)))"
| "py_add (PFloat x) (PInt b) =
     (case float_of_int b of Inl ex \<Rightarrow> Inl ex | Inr y \<Rightarrow> Inr (PFloat (fl_add x y)))"
| "py_add PTuple PTuple = Inr PTuple"
| "py_add _ _ = Inl TypeError"

fun py_sub :: "pyval \<Rightarrow> pyval \<Rightarrow> pyexc + pyval" where
  "py_sub (PInt a) (PInt b) = Inr (PInt (a - b))"
| "py_sub (PFloat x) (PFloat y) = Inr (PFloat (fl_sub x y))"
| "py_sub (PInt a) (PFloat y) =
     (case float_of_int a of Inl ex \<Rightarrow> Inl ex | Inr x \<Rightarrow> Inr (PFloat (fl_sub x y)))"
| "py_sub (PFloat x) (PInt b) =
     (case float_of_int b of Inl ex \<Rightarrow> Inl ex | Inr y \<Rightarrow> Inr (PFloat (fl_sub x y)))"
| "py_sub _ _ = Inl TypeError"

subsection \<open>Comparisons\<close>

text \<open>
  Numbers compare by exact value, also an \<open>int\<close> with a \<open>float\<close>. \<open>ext\<close> places a
  number on the extended line: a finite one as \<open>k * 2^e\<close>, or an infinity; NaN has no place.
\<close>

datatype ext = Dy int int | MInf | PInf

fun ext_of :: "pyval \<Rightarrow> ext option" where
  "ext_of (PInt v) = Some (Dy v 0)"
| "ext_of (PFloat (Fin s m e)) = Some (Dy (signed s m) e)"
| "ext_of (PFloat (Inf s)) = Some (if s then MInf else PInf)"
| "ext_of _ = None"

fun ext_less :: "ext \<Rightarrow> ext \<Rightarrow> bool" where
  "ext_less (Dy a e1) (Dy b e2) = (let e = min e1 e2 in a * 2 ^ nat (e1 - e) < b * 2 ^ nat (e2 - e))"
| "ext_less MInf MInf = False"
| "ext_less MInf _ = True"
| "ext_less PInf _ = False"
| "ext_less (Dy _ _) PInf = True"
| "ext_less (Dy _ _) MInf = False"

text \<open>\<open>a == b\<close>: never raises. NaN equals nothing; a tuple or \<open>Ellipsis\<close> equals only
  itself.\<close>

fun py_eq :: "pyval \<Rightarrow> pyval \<Rightarrow> bool" where
  "py_eq PTuple b = (b = PTuple)"
| "py_eq PEllipsis b = (b = PEllipsis)"
| "py_eq a b = (case (ext_of a, ext_of b) of
       (Some x, Some y) \<Rightarrow> \<not> ext_less x y \<and> \<not> ext_less y x
     | _ \<Rightarrow> False)"

text \<open>\<open>a < b\<close>: between two numbers (False when one is NaN) and between two tuples
  (\<open>() < ()\<close> is False); a TypeError otherwise.\<close>

fun is_number :: "pyval \<Rightarrow> bool" where
  "is_number (PInt _) = True"
| "is_number (PFloat _) = True"
| "is_number _ = False"

definition py_lt :: "pyval \<Rightarrow> pyval \<Rightarrow> pyexc + bool" where
  "py_lt a b =
     (if is_number a \<and> is_number b then
        (case (ext_of a, ext_of b) of (Some x, Some y) \<Rightarrow> Inr (ext_less x y) | _ \<Rightarrow> Inr False)
      else if a = PTuple \<and> b = PTuple then Inr False
      else Inl TypeError)"

definition py_gt :: "pyval \<Rightarrow> pyval \<Rightarrow> pyexc + bool" where
  "py_gt a b = py_lt b a"

subsection \<open>Numbers as text\<close>

definition digit_char :: "nat \<Rightarrow> char" where
  "digit_char d = ''0123456789'' ! (d mod 10)"

definition digit_val :: "char \<Rightarrow> nat" where
  "digit_val c = code c - 48"

function digits_of :: "nat \<Rightarrow> string" where
  "digits_of n = (if n < 10 then [digit_char n] else digits_of (n div 10) @ [digit_char (n mod 10)])"
  by pat_completeness auto
termination
  by (relation "measure id") auto

declare digits_of.simps [simp del]

definition nat_of_digits :: "string \<Rightarrow> nat" where
  "nat_of_digits ds = foldl (\<lambda>a c. 10 * a + digit_val c) 0 ds"

text \<open>\<open>str(v)\<close> for an \<open>int\<close>.\<close>

definition str_int :: "int \<Rightarrow> string" where
  "str_int v = (if v < 0 then CHR ''-'' # digits_of (nat (- v)) else digits_of (nat v))"

text \<open>
  CPython bounds the decimal digits of a conversion between \<open>int\<close> and \<open>str\<close>
  (\<open>sys.get_int_max_str_digits()\<close>, 4300 unless reconfigured): \<open>str(v)\<close> raises ValueError
  for an \<open>int\<close> of more digits (the sign is not counted), and an integer literal of more
  digits is a SyntaxError.
\<close>

definition int_max_str_digits :: nat where
  "int_max_str_digits = 4300"

definition str_int_checked :: "int \<Rightarrow> pyexc + string" where
  "str_int_checked v =
     (if int_max_str_digits < length (digits_of (nat \<bar>v\<bar>)) then Inl ValueError else Inr (str_int v))"

text \<open>
  \<open>f"{val:.2f}"\<close>: the exact value rounded to two decimals (ties to even), written with
  its integer part, a point and two digits.
\<close>

fun format_2f :: "pyfloat \<Rightarrow> string" where
  "format_2f (Fin s m e) =
     (let n = (if 0 \<le> e then 100 * m * 2 ^ nat e else round_half_even (100 * m) (2 ^ nat (- e)))
      in (if s then ''-'' else []) @ digits_of (n div 100) @
         [CHR ''.'', digit_char (n mod 100 div 10), digit_char (n mod 10)])"
| "format_2f (Inf s) = (if s then ''-inf'' else ''inf'')"
| "format_2f NaN = ''nan''"

text \<open>
  \<open>str(f)\<close> for a \<open>float\<close> is \<open>repr(f)\<close>: the shortest decimal digit string that
  rounds back to \<open>f\<close> (the one nearest to \<open>f\<close> among those of that length), printed
  in positional notation when the decimal point position \<open>decpt\<close> satisfies
  \<open>-4 < decpt \<le> 16\<close> and with an exponent otherwise.

  \<open>floor_log10 p q\<close> is the \<open>k\<close> with \<open>10^k \<le> p / q < 10^(k + 1)\<close>.
\<close>

definition floor_log10 :: "nat \<Rightarrow> nat \<Rightarrow> int" where
  "floor_log10 p q =
     (if q \<le> p then int (floorlog 10 (p div q)) - 1
      else let t = floorlog 10 (q div p) in
           if p * 10 ^ (t - 1) = q then - int (t - 1) else - int t)"

text \<open>The decimal \<open>d * 10^s\<close> as a fraction.\<close>

definition dec_frac :: "nat \<Rightarrow> int \<Rightarrow> nat \<times> nat" where
  "dec_frac d s = (if 0 \<le> s then (d * 10 ^ nat s, 1) else (d, 10 ^ nat (- s)))"

text \<open>
  \<open>try_digits n m e\<close>: the two \<open>n\<close>-digit decimals just below and just above
  \<open>m * 2^e\<close>, the nearer one first; the result says whether one of them rounds back to
  \<open>m * 2^e\<close>, and which (\<open>d * 10^s\<close>).
\<close>

definition rounds_back :: "nat \<Rightarrow> int \<Rightarrow> nat \<Rightarrow> int \<Rightarrow> bool" where
  "rounds_back d s m e = (round_fl False (fst (dec_frac d s)) (snd (dec_frac d s)) = Fin False m e)"

definition try_digits :: "nat \<Rightarrow> nat \<Rightarrow> int \<Rightarrow> bool \<times> nat \<times> int" where
  "try_digits n m e =
     (let p = (if 0 \<le> e then m * 2 ^ nat e else m);
          q = (if 0 \<le> e then 1 else 2 ^ nat (- e));
          s = floor_log10 p q - (int n - 1);
          num = (if 0 \<le> s then p else p * 10 ^ nat (- s));
          den = (if 0 \<le> s then q * 10 ^ nat s else q);
          lo = num div den;
          r = num mod den;
          lo_first = (2 * r < den \<or> (2 * r = den \<and> even lo));
          c1 = (if lo_first then lo else lo + 1);
          c2 = (if lo_first then lo + 1 else lo)
      in if rounds_back c1 s m e then (True, c1, s)
         else if rounds_back c2 s m e then (True, c2, s)
         else (False, c1, s))"

text \<open>
  \<open>shortest m e\<close>: try 1 significant digit, then 2, ...; seventeen digits always round
  back, which ends the search.
\<close>

fun first_ok :: "nat list \<Rightarrow> nat \<Rightarrow> int \<Rightarrow> nat \<times> int" where
  "first_ok [] m e = snd (try_digits 17 m e)"
| "first_ok (n # ns) m e =
     (if fst (try_digits n m e) then snd (try_digits n m e) else first_ok ns m e)"

definition shortest :: "nat \<Rightarrow> int \<Rightarrow> nat \<times> int" where
  "shortest m e = first_ok [1, 2, 3, 4, 5, 6, 7, 8, 9, 10, 11, 12, 13, 14, 15, 16] m e"

definition strip_zeros :: "string \<Rightarrow> string" where
  "strip_zeros ds = rev (dropWhile (\<lambda>c. c = CHR ''0'') (rev ds))"

definition repr_finite :: "nat \<Rightarrow> int \<Rightarrow> string" where
  "repr_finite m e =
     (if m = 0 then ''0.0''
      else case shortest m e of (d, s) \<Rightarrow>
        let all = digits_of d;
            ds = strip_zeros all;
            decpt = s + int (length all)
        in if - 4 < decpt \<and> decpt \<le> 16 then
             (if decpt \<le> 0 then ''0.'' @ replicate (nat (- decpt)) (CHR ''0'') @ ds
              else if int (length ds) \<le> decpt then
                ds @ replicate (nat decpt - length ds) (CHR ''0'') @ ''.0''
              else take (nat decpt) ds @ ''.'' @ drop (nat decpt) ds)
           else
             (let x = decpt - 1;
                  xs = digits_of (nat \<bar>x\<bar>)
              in take 1 ds @ (if length ds = 1 then [] else ''.'' @ drop 1 ds) @ ''e'' @
                 (if x < 0 then ''-'' else ''+'') @ (if length xs = 1 then ''0'' else []) @ xs))"

fun fl_repr :: "pyfloat \<Rightarrow> string" where
  "fl_repr (Fin s m e) = (if s then ''-'' else []) @ repr_finite m e"
| "fl_repr (Inf s) = (if s then ''-inf'' else ''inf'')"
| "fl_repr NaN = ''nan''"

text \<open>\<open>str(val)\<close>: its text when it returns, and with the exception it can raise.\<close>

fun py_str :: "pyval \<Rightarrow> string" where
  "py_str (PInt v) = str_int v"
| "py_str (PFloat f) = fl_repr f"
| "py_str PTuple = ''()''"
| "py_str PEllipsis = ''Ellipsis''"

definition py_str_checked :: "pyval \<Rightarrow> pyexc + string" where
  "py_str_checked val = (case val of PInt v \<Rightarrow> str_int_checked v | _ \<Rightarrow> Inr (py_str val))"

section \<open>\<open>eval\<close> on arithmetic text\<close>

text \<open>
  \<open>eval_expr\<close> hands \<open>eval\<close> a text made of digits, \<open>.\<close>, \<open>+\<close>, \<open>-\<close>,
  parentheses and whitespace only (it checks so just before). On such a text Python's
  tokens are: a decimal integer (no leading zero unless all digits are zero), a float
  (\<open>12.\<close>, \<open>.5\<close>, \<open>01.5\<close>), \<open>+\<close>, \<open>-\<close>, \<open>(\<close>, \<open>)\<close>, \<open>.\<close> and \<open>...\<close>. Blanks, tabs
  and form feeds separate tokens; any other character is a SyntaxError. (A physical line
  break cannot occur: the text comes from one line of \<open>splitlines\<close>.) A float literal
  is rounded to the nearest double (to \<open>inf\<close> beyond the largest one), whatever the
  number of its digits. An integer literal of more than 4300 digits is a SyntaxError,
  unless all its digits are zero.
\<close>

datatype token = TNum pyval | TPlus | TMinus | TLPar | TRPar | TDot | TEllipsis

definition float_lit :: "string \<Rightarrow> string \<Rightarrow> pyval" where
  "float_lit ds fs = PFloat (round_fl False (nat_of_digits (ds @ fs)) (10 ^ length fs))"

definition valid_int_lit :: "string \<Rightarrow> bool" where
  "valid_int_lit ds =
     ((hd ds \<noteq> CHR ''0'' \<and> length ds \<le> int_max_str_digits) \<or> (\<forall>c \<in> set ds. c = CHR ''0''))"

definition cons_tok :: "token \<Rightarrow> token list option \<Rightarrow> token list option" where
  "cons_tok t r = map_option ((#) t) r"

function tokenize :: "string \<Rightarrow> token list option" where
  "tokenize [] = Some []"
| "tokenize (c # cs) =
     (if c = CHR '' '' \<or> c = CHR 0x09 \<or> c = CHR 0x0C then tokenize cs
      else if c = CHR ''+'' then cons_tok TPlus (tokenize cs)
      else if c = CHR ''-'' then cons_tok TMinus (tokenize cs)
      else if c = CHR ''('' then cons_tok TLPar (tokenize cs)
      else if c = CHR '')'' then cons_tok TRPar (tokenize cs)
      else if is_digit c then
        (if dropWhile is_digit cs \<noteq> [] \<and> hd (dropWhile is_digit cs) = CHR ''.'' then
           cons_tok (TNum (float_lit (c # takeWhile is_digit cs)
                       (takeWhile is_digit (tl (dropWhile is_digit cs)))))
             (tokenize (dropWhile is_digit (tl (dropWhile is_digit cs))))
         else if valid_int_lit (c # takeWhile is_digit cs) then
           cons_tok (TNum (PInt (int (nat_of_digits (c # takeWhile is_digit cs)))))
             (tokenize (dropWhile is_digit cs))
         else None)
      else if c = CHR ''.'' then
        (if cs \<noteq> [] \<and> is_digit (hd cs) then
           cons_tok (TNum (float_lit [] (takeWhile is_digit cs))) (tokenize (dropWhile is_digit cs))
         else if take 2 cs = ''..'' then cons_tok TEllipsis (tokenize (drop 2 cs))
         else cons_tok TDot (tokenize cs))
      else None)"
  by pat_completeness auto
termination
proof (relation "measure length")
  fix c :: char and cs :: string
  have a: "length (dropWhile is_digit cs) \<le> length cs"
    by (rule length_dropWhile_le)
  have b: "length (dropWhile is_digit (tl (dropWhile is_digit cs))) \<le> length cs"
    by (rule order_trans [OF length_dropWhile_le]) (use a in simp)
  show "(dropWhile is_digit cs, c # cs) \<in> measure length"
    using a by simp
  show "(dropWhile is_digit (tl (dropWhile is_digit cs)), c # cs) \<in> measure length"
    using b by simp
qed (auto simp: less_Suc_eq_le length_dropWhile_le)

declare tokenize.simps [simp del]

text \<open>
  The grammar on these tokens:
  \<^verbatim>\<open>
  sum     ::= sum '+' factor | sum '-' factor | factor
  factor  ::= '+' factor | '-' factor | primary
  primary ::= primary '(' [sum] ')' | NUMBER | '...' | '(' ')' | '(' sum ')'
  \<close>
  Every exception of \<open>eval\<close> on such a text (SyntaxError, TypeError, OverflowError) is
  caught by the same handler of \<open>eval_expr\<close>, so \<open>py_eval\<close> answers \<open>None\<close> for all of
  them. A call \<open>primary(...)\<close> always raises, since no value here is callable.

  The text is read left to right with a stack of open parentheses. A frame holds the
  left operand with the binary operator waiting for its right operand, and the unary
  operators waiting for the current primary (innermost first; \<open>True\<close> is minus).
  An opening parenthesis inside 200 open ones is a SyntaxError ("too many nested
  parentheses"). The compiler's bound on a chain of signs (some thousands, depending on
  the recursion limit of the platform) is not modelled.
\<close>

type_synonym frame = "(pyval \<times> bool) option \<times> bool list"

datatype mode = Expect | Have pyval

fun apply_signs :: "bool list \<Rightarrow> pyval \<Rightarrow> pyexc + pyval" where
  "apply_signs [] v = Inr v"
| "apply_signs (s # ss) v =
     (case (if s then py_neg v else py_pos v) of Inl ex \<Rightarrow> Inl ex | Inr v' \<Rightarrow> apply_signs ss v')"

fun close_frame :: "frame \<Rightarrow> pyval \<Rightarrow> pyexc + pyval" where
  "close_frame (acc, sg) v =
     (case apply_signs sg v of
        Inl ex \<Rightarrow> Inl ex
      | Inr r \<Rightarrow> (case acc of
          None \<Rightarrow> Inr r
        | Some (l, is_sub) \<Rightarrow> if is_sub then py_sub l r else py_add l r))"

fun eval_toks :: "frame list \<Rightarrow> frame \<Rightarrow> mode \<Rightarrow> token list \<Rightarrow> pyval option" where
  "eval_toks stk fr Expect [] = None"
| "eval_toks stk fr (Have v) [] =
     (case stk of
        [] \<Rightarrow> (case close_frame fr v of Inl ex \<Rightarrow> None | Inr r \<Rightarrow> Some r)
      | _ # _ \<Rightarrow> None)"
| "eval_toks stk (acc, sg) Expect (TPlus # ts) = eval_toks stk (acc, False # sg) Expect ts"
| "eval_toks stk (acc, sg) Expect (TMinus # ts) = eval_toks stk (acc, True # sg) Expect ts"
| "eval_toks stk fr Expect (TNum v # ts) = eval_toks stk fr (Have v) ts"
| "eval_toks stk fr Expect (TEllipsis # ts) = eval_toks stk fr (Have PEllipsis) ts"
| "eval_toks stk fr Expect (TLPar # ts) =
     (if 200 \<le> length stk then None else eval_toks (fr # stk) (None, []) Expect ts)"
| "eval_toks stk fr Expect (TRPar # ts) =
     (case (stk, fr) of
        (outer # stk', (None, [])) \<Rightarrow> eval_toks stk' outer (Have PTuple) ts
      | _ \<Rightarrow> None)"
| "eval_toks stk fr Expect (TDot # ts) = None"
| "eval_toks stk fr (Have v) (TPlus # ts) =
     (case close_frame fr v of
        Inl ex \<Rightarrow> None
      | Inr l \<Rightarrow> eval_toks stk (Some (l, False), []) Expect ts)"
| "eval_toks stk fr (Have v) (TMinus # ts) =
     (case close_frame fr v of
        Inl ex \<Rightarrow> None
      | Inr l \<Rightarrow> eval_toks stk (Some (l, True), []) Expect ts)"
| "eval_toks stk fr (Have v) (TRPar # ts) =
     (case stk of
        [] \<Rightarrow> None
      | outer # stk' \<Rightarrow> (case close_frame fr v of
          Inl ex \<Rightarrow> None
        | Inr r \<Rightarrow> eval_toks stk' outer (Have r) ts))"
| "eval_toks stk fr (Have v) (TLPar # ts) = None"
| "eval_toks stk fr (Have v) (TNum w # ts) = None"
| "eval_toks stk fr (Have v) (TEllipsis # ts) = None"
| "eval_toks stk fr (Have v) (TDot # ts) = None"

definition py_eval :: "string \<Rightarrow> pyval option" where
  "py_eval s = (case tokenize s of None \<Rightarrow> None | Some ts \<Rightarrow> eval_toks [] (None, []) Expect ts)"

section \<open>The interpreter\<close>

text \<open>
  The messages of \<open>Interpreter.error\<close>, one constructor per call site:
  \<^item> \<open>Redeclared name\<close>: "Variable 'name' redeclared."
  \<^item> \<open>AssignUndeclared name\<close>: "Assignment to undeclared variable 'name'."
  \<^item> \<open>AssignUndeclaredIf name\<close>: "Assignment to undeclared variable 'name' inside if."
  \<^item> \<open>CannotConvert name\<close>: "Cannot convert value to integer for 'name'."
  \<^item> \<open>IfNoSemicolon\<close>: "Statement inside if must end with semicolon."
  \<^item> \<open>UnsupportedInIf\<close>: "Unsupported statement inside If."
  \<^item> \<open>Unrecognized\<close>: "Unrecognized or invalid syntax."
  \<^item> \<open>IllegalCharacter expr\<close>: "Illegal character in expression 'expr'"
  \<^item> \<open>UsedBeforeAssignment name\<close>: "Variable 'name' used before assignment."
  \<^item> \<open>UndeclaredInExpr name\<close>: "Undeclared variable 'name' in expression."
  \<^item> \<open>IllegalAfterSubst expr_sub\<close>: "Illegal characters after substitution in 'expr_sub'"
  \<^item> \<open>EvalError expr\<close>: "Error evaluating expression 'expr': e" (the text of the
    exception \<open>e\<close> is not modelled)
  \<^item> \<open>InvalidCondition cond\<close>: "Invalid condition format: 'cond'"
  \<^item> \<open>UnsupportedOperator op\<close>: "Unsupported operator 'op' in condition."
  \<^item> \<open>CondError\<close>: "Error evaluating condition: e"

  Every call passes the line number, so an entry of \<open>errors\<close> is the pair of the line
  number and the message (the source renders it as "Line n: message").
\<close>

datatype diag =
    Redeclared string
  | AssignUndeclared string
  | AssignUndeclaredIf string
  | CannotConvert string
  | IfNoSemicolon
  | UnsupportedInIf
  | Unrecognized
  | IllegalCharacter string
  | UsedBeforeAssignment string
  | UndeclaredInExpr string
  | IllegalAfterSubst string
  | EvalError string
  | InvalidCondition string
  | UnsupportedOperator string
  | CondError

text \<open>The fields of an \<open>Interpreter\<close> object; \<open>vars\<close> maps a name to its type (the
  lower-cased keyword) and its value (\<open>None\<close> until assigned).\<close>

record interp =
  source_lines :: "string list"
  vars :: "string \<rightharpoonup> string \<times> pyval option"
  errors :: "(nat \<times> diag) list"
  outputs :: "string list"

definition Interpreter_init :: "string \<Rightarrow> interp" where
  "Interpreter_init source_text =
     \<lparr>source_lines = splitlines source_text, vars = Map.empty, errors = [], outputs = []\<rparr>"

definition error :: "diag \<Rightarrow> nat \<Rightarrow> interp \<Rightarrow> interp" where
  "error msg lineno st = st\<lparr>errors := errors st @ [(lineno, msg)]\<rparr>"

subsection \<open>\<open>eval_expr\<close>\<close>

text \<open>The two character checks: \<open>[^A-Za-z0-9\.\+\-\(\)\s]\<close> on the raw text and
  \<open>[^0-9\.\+\-\(\)\s]\<close> after substitution.\<close>

definition arith_char :: "char \<Rightarrow> bool" where
  "arith_char c = (is_digit c \<or> c = CHR ''.'' \<or> c = CHR ''+'' \<or> c = CHR ''-'' \<or>
     c = CHR ''('' \<or> c = CHR '')'' \<or> is_space c)"

definition legal_char :: "char \<Rightarrow> bool" where
  "legal_char c = (is_alpha c \<or> arith_char c)"

text \<open>\<open>var_repl\<close>: the text \<open>str(val)\<close> put in place of one identifier, or the
  diagnostic it records before raising ValueError (which \<open>eval_expr\<close> catches without
  a further diagnostic). A stored value is the result of \<open>int(round(float(val)))\<close> or of
  \<open>float(val)\<close>: an \<open>int\<close> of at most 309 digits or a \<open>float\<close>, for which \<open>str\<close> returns.\<close>

definition var_repl :: "(string \<rightharpoonup> string \<times> pyval option) \<Rightarrow> string \<Rightarrow> diag + string" where
  "var_repl vs name =
     (case vs name of
        Some (typ, val) \<Rightarrow> (case val of
            None \<Rightarrow> Inl (UsedBeforeAssignment name)
          | Some v \<Rightarrow> Inr (py_str v))
      | None \<Rightarrow> Inl (UndeclaredInExpr name))"

text \<open>
  \<open>re.sub(r'\b[A-Za-z]\w*\b', var_repl, expr)\<close>, scanning left to right. A match starts
  at a letter whose left neighbour is not a word character (\<open>prev\<close> tells whether it
  is one) and, \<open>\w*\<close> being greedy, takes the whole run of word characters, after which
  \<open>\b\<close> holds. The first \<open>var_repl\<close> that raises ends the substitution.
\<close>

function subst_vars :: "(string \<rightharpoonup> string \<times> pyval option) \<Rightarrow> bool \<Rightarrow> string \<Rightarrow> diag + string" where
  "subst_vars vs prev [] = Inr []"
| "subst_vars vs prev (c # cs) =
     (if \<not> prev \<and> is_alpha c then
        (case var_repl vs (c # takeWhile is_word cs) of
           Inl d \<Rightarrow> Inl d
         | Inr txt \<Rightarrow> (case subst_vars vs True (dropWhile is_word cs) of
             Inl d \<Rightarrow> Inl d
           | Inr r \<Rightarrow> Inr (txt @ r)))
      else (case subst_vars vs (is_word c) cs of
          Inl d \<Rightarrow> Inl d
        | Inr r \<Rightarrow> Inr (c # r)))"
  by pat_completeness auto
termination
  by (relation "measure (\<lambda>(vs, prev, s). length s)")
    (auto simp: less_Suc_eq_le length_dropWhile_le)

declare subst_vars.simps [simp del]

text \<open>The identifiers that substitution meets, in order (\<open>re.findall\<close> of the same
  pattern).\<close>

function idents :: "bool \<Rightarrow> string \<Rightarrow> string list" where
  "idents prev [] = []"
| "idents prev (c # cs) =
     (if \<not> prev \<and> is_alpha c then (c # takeWhile is_word cs) # idents True (dropWhile is_word cs)
      else idents (is_word c) cs)"
  by pat_completeness auto
termination
  by (relation "measure (\<lambda>(prev, s). length s)")
    (auto simp: less_Suc_eq_le length_dropWhile_le)

declare idents.simps [simp del]

text \<open>\<open>eval_expr\<close> returns \<open>(val, True)\<close> or \<open>(None, False)\<close>: here \<open>Some val\<close> or
  \<open>None\<close>, next to the interpreter with the diagnostic recorded.\<close>

definition eval_expr :: "string \<Rightarrow> nat \<Rightarrow> interp \<Rightarrow> interp \<times> pyval option" where
  "eval_expr expr lineno st =
     (if \<exists>c \<in> set expr. \<not> legal_char c then (error (IllegalCharacter expr) lineno st, None)
      else case subst_vars (vars st) False expr of
          Inl d \<Rightarrow> (error d lineno st, None)
        | Inr expr_sub \<Rightarrow>
            if \<exists>c \<in> set expr_sub. \<not> arith_char c then
              (error (IllegalAfterSubst expr_sub) lineno st, None)
            else (case py_eval expr_sub of
                None \<Rightarrow> (error (EvalError expr) lineno st, None)
              | Some val \<Rightarrow> (st, Some val)))"

subsection \<open>\<open>eval_condition\<close>\<close>

text \<open>The \<open>try\<close> block of \<open>eval_condition\<close> (lines 229 to 243): the comparison named by
  \<open>op\<close>; an exception of the comparison is reported as a diagnostic.\<close>

definition apply_op :: "string \<Rightarrow> pyval \<Rightarrow> pyval \<Rightarrow> nat \<Rightarrow> interp \<Rightarrow> interp \<times> bool option" where
  "apply_op op lv rv lineno st =
     (if op = ''=='' then (st, Some (py_eq lv rv))
      else if op = ''!='' then (st, Some (\<not> py_eq lv rv))
      else if op = ''>'' then
        (case py_gt lv rv of
           Inl ex \<Rightarrow> (error CondError lineno st, None)
         | Inr b \<Rightarrow> (st, Some b))
      else if op = ''<'' then
        (case py_lt lv rv of
           Inl ex \<Rightarrow> (error CondError lineno st, None)
         | Inr b \<Rightarrow> (st, Some b))
      else (error (UnsupportedOperator op) lineno st, None))"

text \<open>\<open>eval_condition\<close> returns \<open>(True, b)\<close> or \<open>(None, False)\<close>: here \<open>Some b\<close> or
  \<open>None\<close>.\<close>

definition eval_condition :: "string \<Rightarrow> nat \<Rightarrow> interp \<Rightarrow> interp \<times> bool option" where
  "eval_condition cond lineno st =
     (case re_match RE_COND cond of
        None \<Rightarrow> (error (InvalidCondition cond) lineno st, None)
      | Some m \<Rightarrow>
          (let left = strip (grp m 1); op = grp m 2; right = strip (grp m 3) in
           case eval_expr left lineno st of
             (st1, None) \<Rightarrow> (st1, None)
           | (st1, Some lv) \<Rightarrow> (case eval_expr right lineno st1 of
               (st2, None) \<Rightarrow> (st2, None)
             | (st2, Some rv) \<Rightarrow> apply_op op lv rv lineno st2)))"

subsection \<open>\<open>parse_and_run\<close>\<close>

text \<open>
  An exception that \<open>parse_and_run\<close> does not catch ends the run: the result of a line
  is \<open>Inl\<close> the exception or \<open>Inr\<close> the interpreter after the line.

  The assignment handler, at top level (lines 63 to 85) and inside \<open>if\<close> (lines 128 to
  148): the two differ in the message for an undeclared name only. The conversion to
  \<open>integer\<close> is inside \<open>try\<close>; the conversion \<open>float(val)\<close> to \<open>double\<close> is not.
\<close>

definition assign_stmt :: "bool \<Rightarrow> string \<Rightarrow> string \<Rightarrow> nat \<Rightarrow> interp \<Rightarrow> pyexc + interp" where
  "assign_stmt in_if name expr i st =
     (case vars st name of
        None \<Rightarrow> Inr (error (if in_if then AssignUndeclaredIf name else AssignUndeclared name) i st)
      | Some (typ, old) \<Rightarrow> (case eval_expr expr i st of
          (st1, None) \<Rightarrow> Inr st1
        | (st1, Some val) \<Rightarrow>
            if typ = ''integer'' then
              (case (case py_float val of Inl ex \<Rightarrow> Inl ex | Inr f \<Rightarrow> py_round f) of
                 Inl ex \<Rightarrow> Inr (error (CannotConvert name) i st1)
               | Inr n \<Rightarrow> Inr (st1\<lparr>vars := (vars st1)(name \<mapsto> (typ, Some (PInt n)))\<rparr>))
            else (case py_float val of
                Inl ex \<Rightarrow> Inl ex
              | Inr f \<Rightarrow> Inr (st1\<lparr>vars := (vars st1)(name \<mapsto> (typ, Some (PFloat f)))\<rparr>))))"

text \<open>
  The display of a value (lines 99 to 108 and 159 to 167), which is the text appended to
  \<open>outputs\<close>. \<open>int_or_str\<close> is the \<open>else\<close> branch: inside \<open>try\<close>, \<open>float(val)\<close> and
  \<open>str(int(float(val)))\<close> (the \<open>int\<close> of a double has at most 309 digits, so this \<open>str\<close>
  returns); an exception there leads to the bare \<open>except\<close>, whose \<open>str(val)\<close> is outside
  any \<open>try\<close>: its ValueError, for an \<open>int\<close> of more than 4300 digits, leaves
  \<open>parse_and_run\<close>.
\<close>

definition int_or_str :: "pyval \<Rightarrow> pyexc + string" where
  "int_or_str val =
     (case py_float val of
        Inl ex \<Rightarrow> py_str_checked val
      | Inr f \<Rightarrow> if fl_is_integer f then (case fl_int f of Inl ex \<Rightarrow> py_str_checked val | Inr n \<Rightarrow> Inr (str_int n))
                 else py_str_checked val)"

definition display :: "pyval \<Rightarrow> pyexc + string" where
  "display val =
     (case val of
        PFloat f \<Rightarrow> if \<not> fl_is_integer f then Inr (format_2f f) else int_or_str val
      | _ \<Rightarrow> int_or_str val)"

text \<open>
  Words for the display: an integer text is an optional minus sign and at least one digit
  (no decimal point); a two-decimal text is an integer text, a point and exactly two
  digits.
\<close>

definition is_int_text :: "string \<Rightarrow> bool" where
  "is_int_text t =
     (case t of
        [] \<Rightarrow> False
      | c # cs \<Rightarrow> if c = CHR ''-'' then cs \<noteq> [] \<and> list_all is_digit cs
                  else list_all is_digit (c # cs))"

definition is_two_decimal_text :: "string \<Rightarrow> bool" where
  "is_two_decimal_text t =
     (case rev t of
        d2 # d1 # p # ip \<Rightarrow> p = CHR ''.'' \<and> is_digit d1 \<and> is_digit d2 \<and> is_int_text (rev ip)
      | _ \<Rightarrow> False)"

text \<open>The output handler (lines 88 to 109 and 151 to 168).\<close>

definition is_quoted :: "string \<Rightarrow> bool" where
  "is_quoted payload = (payload \<noteq> [] \<and> hd payload = CHR 0x22 \<and> last payload = CHR 0x22)"

definition output_stmt :: "string \<Rightarrow> nat \<Rightarrow> interp \<Rightarrow> pyexc + interp" where
  "output_stmt payload i st =
     (if is_quoted payload then Inr (st\<lparr>outputs := outputs st @ [butlast (tl payload)]\<rparr>)
      else case eval_expr payload i st of
          (st1, None) \<Rightarrow> Inr st1
        | (st1, Some val) \<Rightarrow> (case display val of
            Inl ex \<Rightarrow> Inl ex
          | Inr shown \<Rightarrow> Inr (st1\<lparr>outputs := outputs st1 @ [shown]\<rparr>)))"

text \<open>The conditional handler (lines 111 to 170).\<close>

definition if_stmt :: "string \<Rightarrow> string \<Rightarrow> nat \<Rightarrow> interp \<Rightarrow> pyexc + interp" where
  "if_stmt cond stmt i st =
     (case eval_condition cond i st of
        (st1, None) \<Rightarrow> Inr st1
      | (st1, Some cond_res) \<Rightarrow>
          if cond_res then
            (if stmt = [] \<or> last stmt \<noteq> CHR '';'' then Inr (error IfNoSemicolon i st1)
             else case re_match RE_ASSIGN stmt of
                 Some m2 \<Rightarrow> assign_stmt True (grp m2 1) (strip (grp m2 2)) i st1
               | None \<Rightarrow> (case re_match RE_OUTPUT stmt of
                   Some m2 \<Rightarrow> output_stmt (strip (grp m2 1)) i st1
                 | None \<Rightarrow> Inr (error UnsupportedInIf i st1)))
          else Inr st1)"

text \<open>The body of the loop over the lines.\<close>

definition process_line :: "nat \<Rightarrow> string \<Rightarrow> interp \<Rightarrow> pyexc + interp" where
  "process_line i raw_line st =
     (let line = strip raw_line in
      if line = [] then Inr st
      else case re_match RE_DECL line of
          Some m \<Rightarrow>
            (let name = grp m 1; typ = lower (grp m 2) in
             if vars st name \<noteq> None then Inr (error (Redeclared name) i st)
             else Inr (st\<lparr>vars := (vars st)(name \<mapsto> (typ, None))\<rparr>))
        | None \<Rightarrow> (case re_match RE_ASSIGN line of
            Some m \<Rightarrow> assign_stmt False (grp m 1) (strip (grp m 2)) i st
          | None \<Rightarrow> (case re_match RE_OUTPUT line of
              Some m \<Rightarrow> output_stmt (strip (grp m 1)) i st
            | None \<Rightarrow> (case re_match RE_IF line of
                Some m \<Rightarrow> if_stmt (strip (grp m 1)) (strip (grp m 2)) i st
              | None \<Rightarrow> Inr (error Unrecognized i st)))))"

text \<open>The name and the type that a line declares, when it is a declaration.\<close>

definition declaration_of :: "string \<Rightarrow> (string \<times> string) option" where
  "declaration_of raw_line =
     map_option (\<lambda>m. (grp m 1, lower (grp m 2))) (re_match RE_DECL (strip raw_line))"

fun run_lines :: "nat \<Rightarrow> string list \<Rightarrow> interp \<Rightarrow> pyexc + interp" where
  "run_lines i [] st = Inr st"
| "run_lines i (l # ls) st =
     (case process_line i l st of Inl ex \<Rightarrow> Inl ex | Inr st' \<Rightarrow> run_lines (Suc i) ls st')"

definition parse_and_run :: "interp \<Rightarrow> pyexc + interp" where
  "parse_and_run st = run_lines 1 (source_lines st) st"

text \<open>One run on a source text: a fresh \<open>Interpreter\<close>, then \<open>parse_and_run\<close>; the
  caller reads \<open>outputs\<close> and \<open>errors\<close>.\<close>

definition run :: "string \<Rightarrow> pyexc + interp" where
  "run source_text = parse_and_run (Interpreter_init source_text)"

definition report :: "pyexc + interp \<Rightarrow> pyexc + string list \<times> (nat \<times> diag) list" where
  "report r = map_sum id (\<lambda>st. (outputs st, errors st)) r"

subsection \<open>The objects of a run in the store\<close>

text \<open>
  Runs in one Python process share one store of objects, and what a run leaves there is
  what a later run could see. \<open>__init__\<close> (lines 35 to 39) binds the four attributes
  of a new \<open>Interpreter\<close>: \<open>source_lines\<close> to the list that \<open>splitlines\<close> returns,
  \<open>vars\<close> to a new \<open>dict\<close>, \<open>errors\<close> and \<open>outputs\<close> to new lists. No statement
  of the class binds an attribute again: the methods change the \<open>dict\<close> and the two
  lists in place (\<open>self.vars[name] = ...\<close>, \<open>self.errors.append(...)\<close>,
  \<open>self.outputs.append(...)\<close>). The module has no other mutable object: the compiled
  patterns are only matched, and every call of \<open>eval\<close> gets two new \<open>dict\<close>s.

  The store is the list of the objects created so far, an address is a position in it,
  and an \<open>Interpreter\<close> object is the four addresses that its attributes are bound to.
\<close>

datatype obj =
    Lines "string list"
  | Dict "string \<rightharpoonup> string \<times> pyval option"
  | Errors "(nat \<times> diag) list"
  | Outputs "string list"

type_synonym store = "obj list"

record interp_obj =
  lines_at :: nat
  vars_at :: nat
  errors_at :: nat
  outputs_at :: nat

text \<open>Creating an object appends it to the store; its address is new.\<close>

definition new_obj :: "obj \<Rightarrow> store \<Rightarrow> nat \<times> store" where
  "new_obj x h = (length h, h @ [x])"

definition Interpreter_new :: "string \<Rightarrow> store \<Rightarrow> interp_obj \<times> store" where
  "Interpreter_new source_text h =
     (case new_obj (Lines (splitlines source_text)) h of (l, h1) \<Rightarrow>
      case new_obj (Dict Map.empty) h1 of (v, h2) \<Rightarrow>
      case new_obj (Errors []) h2 of (e, h3) \<Rightarrow>
      case new_obj (Outputs []) h3 of (out, h4) \<Rightarrow>
        (\<lparr>lines_at = l, vars_at = v, errors_at = e, outputs_at = out\<rparr>, h4))"

text \<open>Reading the attributes of \<open>self\<close>.\<close>

definition get_lines :: "interp_obj \<Rightarrow> store \<Rightarrow> string list" where
  "get_lines self h = (case h ! lines_at self of Lines ls \<Rightarrow> ls | _ \<Rightarrow> [])"

definition get_vars :: "interp_obj \<Rightarrow> store \<Rightarrow> (string \<rightharpoonup> string \<times> pyval option)" where
  "get_vars self h = (case h ! vars_at self of Dict d \<Rightarrow> d | _ \<Rightarrow> Map.empty)"

definition get_errors :: "interp_obj \<Rightarrow> store \<Rightarrow> (nat \<times> diag) list" where
  "get_errors self h = (case h ! errors_at self of Errors es \<Rightarrow> es | _ \<Rightarrow> [])"

definition get_outputs :: "interp_obj \<Rightarrow> store \<Rightarrow> string list" where
  "get_outputs self h = (case h ! outputs_at self of Outputs os \<Rightarrow> os | _ \<Rightarrow> [])"

text \<open>The three mutations in place: \<open>self.errors.append\<close> (in \<open>Interpreter.error\<close>),
  \<open>self.vars[name] = (typ, val)\<close> and \<open>self.outputs.append\<close>.\<close>

definition error_at :: "diag \<Rightarrow> nat \<Rightarrow> interp_obj \<Rightarrow> store \<Rightarrow> store" where
  "error_at msg lineno self h = h[errors_at self := Errors (get_errors self h @ [(lineno, msg)])]"

definition set_var :: "string \<Rightarrow> string \<times> pyval option \<Rightarrow> interp_obj \<Rightarrow> store \<Rightarrow> store" where
  "set_var name tv self h = h[vars_at self := Dict ((get_vars self h)(name \<mapsto> tv))]"

definition append_output :: "string \<Rightarrow> interp_obj \<Rightarrow> store \<Rightarrow> store" where
  "append_output shown self h = h[outputs_at self := Outputs (get_outputs self h @ [shown])]"

text \<open>The methods, statement by statement as above, reading and writing the store
  through \<open>self\<close>.\<close>

definition eval_expr_at :: "string \<Rightarrow> nat \<Rightarrow> interp_obj \<Rightarrow> store \<Rightarrow> store \<times> pyval option" where
  "eval_expr_at expr lineno self h =
     (if \<exists>c \<in> set expr. \<not> legal_char c then (error_at (IllegalCharacter expr) lineno self h, None)
      else case subst_vars (get_vars self h) False expr of
          Inl d \<Rightarrow> (error_at d lineno self h, None)
        | Inr expr_sub \<Rightarrow>
            if \<exists>c \<in> set expr_sub. \<not> arith_char c then
              (error_at (IllegalAfterSubst expr_sub) lineno self h, None)
            else (case py_eval expr_sub of
                None \<Rightarrow> (error_at (EvalError expr) lineno self h, None)
              | Some val \<Rightarrow> (h, Some val)))"

definition apply_op_at ::
  "string \<Rightarrow> pyval \<Rightarrow> pyval \<Rightarrow> nat \<Rightarrow> interp_obj \<Rightarrow> store \<Rightarrow> store \<times> bool option" where
  "apply_op_at op lv rv lineno self h =
     (if op = ''=='' then (h, Some (py_eq lv rv))
      else if op = ''!='' then (h, Some (\<not> py_eq lv rv))
      else if op = ''>'' then
        (case py_gt lv rv of
           Inl ex \<Rightarrow> (error_at CondError lineno self h, None)
         | Inr b \<Rightarrow> (h, Some b))
      else if op = ''<'' then
        (case py_lt lv rv of
           Inl ex \<Rightarrow> (error_at CondError lineno self h, None)
         | Inr b \<Rightarrow> (h, Some b))
      else (error_at (UnsupportedOperator op) lineno self h, None))"

definition eval_condition_at :: "string \<Rightarrow> nat \<Rightarrow> interp_obj \<Rightarrow> store \<Rightarrow> store \<times> bool option" where
  "eval_condition_at cond lineno self h =
     (case re_match RE_COND cond of
        None \<Rightarrow> (error_at (InvalidCondition cond) lineno self h, None)
      | Some m \<Rightarrow>
          (let left = strip (grp m 1); op = grp m 2; right = strip (grp m 3) in
           case eval_expr_at left lineno self h of
             (h1, None) \<Rightarrow> (h1, None)
           | (h1, Some lv) \<Rightarrow> (case eval_expr_at right lineno self h1 of
               (h2, None) \<Rightarrow> (h2, None)
             | (h2, Some rv) \<Rightarrow> apply_op_at op lv rv lineno self h2)))"

definition assign_stmt_at ::
  "bool \<Rightarrow> string \<Rightarrow> string \<Rightarrow> nat \<Rightarrow> interp_obj \<Rightarrow> store \<Rightarrow> pyexc + store" where
  "assign_stmt_at in_if name expr i self h =
     (case get_vars self h name of
        None \<Rightarrow> Inr (error_at (if in_if then AssignUndeclaredIf name else AssignUndeclared name) i self h)
      | Some (typ, old) \<Rightarrow> (case eval_expr_at expr i self h of
          (h1, None) \<Rightarrow> Inr h1
        | (h1, Some val) \<Rightarrow>
            if typ = ''integer'' then
              (case (case py_float val of Inl ex \<Rightarrow> Inl ex | Inr f \<Rightarrow> py_round f) of
                 Inl ex \<Rightarrow> Inr (error_at (CannotConvert name) i self h1)
               | Inr n \<Rightarrow> Inr (set_var name (typ, Some (PInt n)) self h1))
            else (case py_float val of
                Inl ex \<Rightarrow> Inl ex
              | Inr f \<Rightarrow> Inr (set_var name (typ, Some (PFloat f)) self h1))))"

definition output_stmt_at :: "string \<Rightarrow> nat \<Rightarrow> interp_obj \<Rightarrow> store \<Rightarrow> pyexc + store" where
  "output_stmt_at payload i self h =
     (if is_quoted payload then Inr (append_output (butlast (tl payload)) self h)
      else case eval_expr_at payload i self h of
          (h1, None) \<Rightarrow> Inr h1
        | (h1, Some val) \<Rightarrow> (case display val of
            Inl ex \<Rightarrow> Inl ex
          | Inr shown \<Rightarrow> Inr (append_output shown self h1)))"

definition if_stmt_at :: "string \<Rightarrow> string \<Rightarrow> nat \<Rightarrow> interp_obj \<Rightarrow> store \<Rightarrow> pyexc + store" where
  "if_stmt_at cond stmt i self h =
     (case eval_condition_at cond i self h of
        (h1, None) \<Rightarrow> Inr h1
      | (h1, Some cond_res) \<Rightarrow>
          if cond_res then
            (if stmt = [] \<or> last stmt \<noteq> CHR '';'' then Inr (error_at IfNoSemicolon i self h1)
             else case re_match RE_ASSIGN stmt of
                 Some m2 \<Rightarrow> assign_stmt_at True (grp m2 1) (strip (grp m2 2)) i self h1
               | None \<Rightarrow> (case re_match RE_OUTPUT stmt of
                   Some m2 \<Rightarrow> output_stmt_at (strip (grp m2 1)) i self h1
                 | None \<Rightarrow> Inr (error_at UnsupportedInIf i self h1)))
          else Inr h1)"

definition process_line_at :: "nat \<Rightarrow> string \<Rightarrow> interp_obj \<Rightarrow> store \<Rightarrow> pyexc + store" where
  "process_line_at i raw_line self h =
     (let line = strip raw_line in
      if line = [] then Inr h
      else case re_match RE_DECL line of
          Some m \<Rightarrow>
            (let name = grp m 1; typ = lower (grp m 2) in
             if get_vars self h name \<noteq> None then Inr (error_at (Redeclared name) i self h)
             else Inr (set_var name (typ, None) self h))
        | None \<Rightarrow> (case re_match RE_ASSIGN line of
            Some m \<Rightarrow> assign_stmt_at False (grp m 1) (strip (grp m 2)) i self h
          | None \<Rightarrow> (case re_match RE_OUTPUT line of
              Some m \<Rightarrow> output_stmt_at (strip (grp m 1)) i self h
            | None \<Rightarrow> (case re_match RE_IF line of
                Some m \<Rightarrow> if_stmt_at (strip (grp m 1)) (strip (grp m 2)) i self h
              | None \<Rightarrow> Inr (error_at Unrecognized i self h)))))"

fun run_lines_at :: "nat \<Rightarrow> string list \<Rightarrow> interp_obj \<Rightarrow> store \<Rightarrow> pyexc + store" where
  "run_lines_at i [] self h = Inr h"
| "run_lines_at i (l # ls) self h =
     (case process_line_at i l self h of Inl ex \<Rightarrow> Inl ex | Inr h' \<Rightarrow> run_lines_at (Suc i) ls self h')"

definition parse_and_run_at :: "interp_obj \<Rightarrow> store \<Rightarrow> pyexc + store" where
  "parse_and_run_at self h = run_lines_at 1 (get_lines self h) self h"

text \<open>One run in a store: \<open>Interpreter(source_text)\<close>, then \<open>parse_and_run()\<close>; the
  caller keeps the object and reads its \<open>outputs\<close> and \<open>errors\<close> from the store. An
  exception that leaves \<open>parse_and_run\<close> leaves the caller too.\<close>

definition run_at :: "string \<Rightarrow> store \<Rightarrow> pyexc + interp_obj \<times> store" where
  "run_at source_text h =
     (case Interpreter_new source_text h of (self, h1) \<Rightarrow>
      case parse_and_run_at self h1 of Inl ex \<Rightarrow> Inl ex | Inr h2 \<Rightarrow> Inr (self, h2))"

text \<open>
  The link between the two descriptions of the class. \<open>view self h\<close> is the
  \<open>Interpreter\<close> made of what the attributes of \<open>self\<close> hold in \<open>h\<close>, \<open>put self st h\<close>
  is \<open>h\<close> with these four objects replaced by the fields of \<open>st\<close>, and \<open>owns self h\<close>
  says that the four addresses are different objects of \<open>h\<close> of the right kinds.
  \<open>cells st\<close> are the four objects of a new \<open>Interpreter\<close> in the order of their
  creation, and \<open>refs_from n\<close> their addresses when the first is \<open>n\<close>.
\<close>

definition view :: "interp_obj \<Rightarrow> store \<Rightarrow> interp" where
  "view self h = \<lparr>source_lines = get_lines self h, vars = get_vars self h,
     errors = get_errors self h, outputs = get_outputs self h\<rparr>"

definition put :: "interp_obj \<Rightarrow> interp \<Rightarrow> store \<Rightarrow> store" where
  "put self st h = h[lines_at self := Lines (source_lines st), vars_at self := Dict (vars st),
     errors_at self := Errors (errors st), outputs_at self := Outputs (outputs st)]"

definition owns :: "interp_obj \<Rightarrow> store \<Rightarrow> bool" where
  "owns self h =
     (distinct [lines_at self, vars_at self, errors_at self, outputs_at self] \<and>
      (\<exists>ls. lines_at self < length h \<and> h ! lines_at self = Lines ls) \<and>
      (\<exists>d. vars_at self < length h \<and> h ! vars_at self = Dict d) \<and>
      (\<exists>es. errors_at self < length h \<and> h ! errors_at self = Errors es) \<and>
      (\<exists>os. outputs_at self < length h \<and> h ! outputs_at self = Outputs os))"

definition cells :: "interp \<Rightarrow> store" where
  "cells st = [Lines (source_lines st), Dict (vars st), Errors (errors st), Outputs (outputs st)]"

definition refs_from :: "nat \<Rightarrow> interp_obj" where
  "refs_from n = \<lparr>lines_at = n, vars_at = n + 1, errors_at = n + 2, outputs_at = n + 3\<rparr>"

section \<open>Evaluating the model on concrete programs\<close>

text \<open>The equations that \<open>simp\<close> needs to run the model on a concrete text.\<close>

lemmas char_eval = code_def is_space_def is_digit_def is_alpha_def is_word_def is_any_def
  lower_char_def lower_def strip_def is_linebreak_def splitlines_def

lemmas re_eval = re_match_def grp_def RE_DECL_def RE_ASSIGN_def RE_OUTPUT_def RE_IF_def RE_COND_def

lemmas fl_eval = float_of_int_def round_fl_def compute_bitlen compute_floorlog scaled_ge_def
  round_half_even_def norm_me.simps Let_def signed_def fl_sub_def

lemmas str_eval = digit_char_def digit_val_def digits_of.simps nat_of_digits_def str_int_def
  int_max_str_digits_def str_int_checked_def py_str_checked_def
  floor_log10_def dec_frac_def rounds_back_def try_digits_def shortest_def strip_zeros_def
  repr_finite_def

lemmas py_eval_eval = float_lit_def valid_int_lit_def cons_tok_def tokenize.simps py_eval_def
  py_lt_def py_gt_def

lemmas interp_eval = Interpreter_init_def error_def arith_char_def legal_char_def var_repl_def
  subst_vars.simps idents.simps eval_expr_def apply_op_def eval_condition_def assign_stmt_def int_or_str_def
  display_def is_quoted_def output_stmt_def if_stmt_def process_line_def parse_and_run_def
  run_def report_def

lemmas evals = char_eval re_eval fl_eval str_eval py_eval_eval interp_eval

lemmas store_eval = Interpreter_new_def new_obj_def get_lines_def get_vars_def get_errors_def
  get_outputs_def error_at_def set_var_def append_output_def eval_expr_at_def apply_op_at_def
  eval_condition_at_def assign_stmt_at_def output_stmt_at_def if_stmt_at_def process_line_at_def
  parse_and_run_at_def run_at_def


section \<open>Expression evaluation\<close>

text \<open>\<open>eval_expr\<close> either returns a value and leaves the interpreter as it was, or
  returns nothing and records exactly one diagnostic.\<close>

lemma subst_vars_Inl:
  "subst_vars vs prev s = Inl d \<Longrightarrow> \<exists>y \<in> set (idents prev s). var_repl vs y = Inl d"
  by (induction vs prev s rule: subst_vars.induct)
    (auto simp: subst_vars.simps idents.simps split: if_splits sum.splits)

lemma subst_vars_Inr:
  "subst_vars vs prev s = Inr r \<Longrightarrow> y \<in> set (idents prev s) \<Longrightarrow> \<exists>t. var_repl vs y = Inr t"
  by (induction vs prev s arbitrary: r rule: subst_vars.induct)
    (auto simp: subst_vars.simps idents.simps split: if_splits sum.splits)

lemma var_repl_Inl:
  "var_repl vs y = Inl d \<Longrightarrow>
     (d = UsedBeforeAssignment y \<and> (\<exists>t. vs y = Some (t, None))) \<or> (d = UndeclaredInExpr y \<and> vs y = None)"
  by (auto simp: var_repl_def split: option.splits)

lemma var_repl_Inr:
  "var_repl vs y = Inr t \<Longrightarrow> \<exists>ty v. vs y = Some (ty, Some v)"
  by (auto simp: var_repl_def split: option.splits)

text \<open>Substitution stops at the first identifier, in the order of the text, that
  \<open>var_repl\<close> cannot replace.\<close>

lemma subst_vars_first:
  "subst_vars vs prev s = Inl d \<Longrightarrow>
     \<exists>pre y post. idents prev s = pre @ y # post \<and> (\<forall>w \<in> set pre. \<exists>t. var_repl vs w = Inr t) \<and>
       var_repl vs y = Inl d"
proof (induction vs prev s rule: subst_vars.induct)
  case (1 vs prev)
  then show ?case by (simp add: subst_vars.simps)
next
  case (2 vs prev c cs)
  show ?case
  proof (cases "\<not> prev \<and> is_alpha c")
    case True
    let ?y = "c # takeWhile is_word cs"
    have ids: "idents prev (c # cs) = ?y # idents True (dropWhile is_word cs)"
      using True by (simp add: idents.simps)
    show ?thesis
    proof (cases "var_repl vs ?y")
      case (Inl d')
      then have "d' = d" using 2(3) True by (simp add: subst_vars.simps)
      then show ?thesis using Inl ids
        by (intro exI [of _ "[]"] exI [of _ "c # takeWhile is_word cs"]
            exI [of _ "idents True (dropWhile is_word cs)"]) auto
    next
      case (Inr rtext)
      then have "subst_vars vs True (dropWhile is_word cs) = Inl d"
        using 2(3) True by (simp add: subst_vars.simps split: sum.splits)
      from 2(1) [OF True Inr this] obtain pre y post where
        "idents True (dropWhile is_word cs) = pre @ y # post"
        "\<forall>w \<in> set pre. \<exists>t. var_repl vs w = Inr t" "var_repl vs y = Inl d" by blast
      then show ?thesis using ids Inr
        by (intro exI [of _ "(c # takeWhile is_word cs) # pre"] exI [of _ y] exI [of _ post]) auto
    qed
  next
    case False
    then have ids: "idents prev (c # cs) = idents (is_word c) cs"
      by (auto simp: idents.simps)
    have "subst_vars vs (is_word c) cs = Inl d"
      using 2(3) False by (auto simp: subst_vars.simps split: sum.splits)
    from 2(2) [OF False this] show ?thesis using ids by simp
  qed
qed

lemma error_inject: "error d i st = error d' i' st' \<Longrightarrow> d = d' \<and> i = i'"
proof -
  assume eq: "error d i st = error d' i' st'"
  have "errors (error d i st) = errors (error d' i' st')" by (simp add: eq)
  then have "errors st @ [(i, d)] = errors st' @ [(i', d')]" by (simp add: error_def)
  then show ?thesis by simp
qed

lemma eval_expr_cases:
  "(\<exists>v. eval_expr e i st = (st, Some v)) \<or>
   (\<exists>d. eval_expr e i st = (error d i st, None) \<and>
      (d = IllegalCharacter e \<or> (\<exists>y. d = UsedBeforeAssignment y) \<or> (\<exists>y. d = UndeclaredInExpr y) \<or>
       (\<exists>t. d = IllegalAfterSubst t) \<or> d = EvalError e))"
proof (cases "subst_vars (vars st) False e")
  case (Inl d)
  from subst_vars_Inl [OF this] obtain y where "var_repl (vars st) y = Inl d" by blast
  from var_repl_Inl [OF this] Inl show ?thesis
    by (auto simp: eval_expr_def)
next
  case (Inr t)
  then show ?thesis
    by (auto simp: eval_expr_def split: option.splits)
qed

text \<open>
  Claim C8. An expression text with a character outside letters, digits, \<open>.\<close>, \<open>+\<close>,
  \<open>-\<close>, parentheses and whitespace is rejected: \<open>eval_expr\<close> returns no value and
  records the illegal-character diagnostic; the variables, the outputs and the earlier
  diagnostics are untouched. \<open>*\<close> and \<open>/\<close> are such characters.
\<close>

theorem illegal_character_rejected:
  "((\<exists>c \<in> set expr. \<not> legal_char c) \<longrightarrow>
     eval_expr expr lineno st = (st\<lparr>errors := errors st @ [(lineno, IllegalCharacter expr)]\<rparr>, None)) \<and>
   \<not> legal_char (CHR ''*'') \<and> \<not> legal_char (CHR ''/'')"
  by (auto simp: eval_expr_def error_def legal_char_def arith_char_def char_eval)


theorem illegal_character_rejected_witness:
  "(\<exists>c \<in> set ''2*3''. \<not> legal_char c) \<and>
   eval_expr ''2*3'' 1 (Interpreter_init []) =
     ((Interpreter_init [])\<lparr>errors := [(1, IllegalCharacter ''2*3'')]\<rparr>, None)"
  using illegal_character_rejected [of "''2*3''" 1 "Interpreter_init []"]
  by (simp add: legal_char_def arith_char_def char_eval Interpreter_init_def)

text \<open>
  Claim C5, as stated, fails: with \<open>x\<close> declared and unset and \<open>y\<close> undeclared, the
  expression \<open>y + x\<close> references \<open>x\<close>, yet the only diagnostic is the one for the
  undeclared \<open>y\<close>, which substitution meets first. Likewise \<open>x * 2\<close> references \<open>x\<close>, and
  the only diagnostic is the one for the illegal character, which is checked before any
  identifier is looked up.
\<close>

theorem used_before_assignment_counterexample:
  "''x'' \<in> set (idents False ''y + x'') \<and>
   vars ((Interpreter_init [])\<lparr>vars := [''x'' \<mapsto> (''integer'', None)]\<rparr>) ''x'' = Some (''integer'', None) \<and>
   eval_expr ''y + x'' 1 ((Interpreter_init [])\<lparr>vars := [''x'' \<mapsto> (''integer'', None)]\<rparr>) =
     ((Interpreter_init [])\<lparr>vars := [''x'' \<mapsto> (''integer'', None)], errors := [(1, UndeclaredInExpr ''y'')]\<rparr>, None) \<and>
   ''x'' \<in> set (idents False ''x * 2'') \<and>
   eval_expr ''x * 2'' 1 ((Interpreter_init [])\<lparr>vars := [''x'' \<mapsto> (''integer'', None)]\<rparr>) =
     ((Interpreter_init [])\<lparr>vars := [''x'' \<mapsto> (''integer'', None)], errors := [(1, IllegalCharacter ''x * 2'')]\<rparr>, None)"
  by (simp add: evals)

text \<open>
  Claim C5, amended. If an identifier of the expression names a declared variable whose
  value is unset, \<open>eval_expr\<close> returns no value (no default is substituted) and records
  exactly one diagnostic, which is determined as follows. When the text has an illegal
  character it is the illegal-character diagnostic. Otherwise it is the diagnostic of the
  first identifier of the text, from left to right, that is undeclared or unset (every
  identifier before it is declared and has a value): UsedBeforeAssignment when that
  identifier is declared and unset, UndeclaredInExpression when it is undeclared. So
  \<open>x + y\<close> with \<open>x\<close> unset and \<open>y\<close> undeclared records UsedBeforeAssignment for \<open>x\<close>.
\<close>

theorem used_before_assignment:
  assumes "x \<in> set (idents False expr)" and "vars st x = Some (typ, None)"
  shows "\<exists>pre y post. idents False expr = pre @ y # post \<and>
     (\<forall>w \<in> set pre. \<exists>t v. vars st w = Some (t, Some v)) \<and>
     (vars st y = None \<or> (\<exists>t. vars st y = Some (t, None))) \<and>
     eval_expr expr lineno st =
       (error (if \<exists>c \<in> set expr. \<not> legal_char c then IllegalCharacter expr
               else if vars st y = None then UndeclaredInExpr y
               else UsedBeforeAssignment y) lineno st, None)"
proof -
  have "var_repl (vars st) x = Inl (UsedBeforeAssignment x)"
    using assms(2) by (simp add: var_repl_def)
  then have "\<And>r. subst_vars (vars st) False expr \<noteq> Inr r"
    using subst_vars_Inr [OF _ assms(1)] by fastforce
  then obtain d where d: "subst_vars (vars st) False expr = Inl d"
    by (cases "subst_vars (vars st) False expr") auto
  from subst_vars_first [OF d] obtain pre y post where ids: "idents False expr = pre @ y # post"
    and pre: "\<forall>w \<in> set pre. \<exists>t. var_repl (vars st) w = Inr t"
    and y: "var_repl (vars st) y = Inl d" by blast
  have pre': "\<forall>w \<in> set pre. \<exists>t v. vars st w = Some (t, Some v)"
    using pre var_repl_Inr by blast
  from var_repl_Inl [OF y] have
    yc: "(d = UsedBeforeAssignment y \<and> (\<exists>t. vars st y = Some (t, None))) \<or>
         (d = UndeclaredInExpr y \<and> vars st y = None)" .
  have ev: "eval_expr expr lineno st =
       (error (if \<exists>c \<in> set expr. \<not> legal_char c then IllegalCharacter expr
               else if vars st y = None then UndeclaredInExpr y
               else UsedBeforeAssignment y) lineno st, None)"
    using d yc by (auto simp: eval_expr_def)
  from ids pre' yc ev show ?thesis by blast
qed

theorem used_before_assignment_witness:
  "''x'' \<in> set (idents False ''x + y'') \<and>
   vars ((Interpreter_init [])\<lparr>vars := [''x'' \<mapsto> (''integer'', None)]\<rparr>) ''x'' = Some (''integer'', None) \<and>
   eval_expr ''x + y'' 1 ((Interpreter_init [])\<lparr>vars := [''x'' \<mapsto> (''integer'', None)]\<rparr>) =
     ((Interpreter_init [])\<lparr>vars := [''x'' \<mapsto> (''integer'', None)], errors := [(1, UsedBeforeAssignment ''x'')]\<rparr>, None)"
  using used_before_assignment [of "''x''" "''x + y''"
      "(Interpreter_init [])\<lparr>vars := [''x'' \<mapsto> (''integer'', None)]\<rparr>" "''integer''" 1]
  by (simp add: evals)

section \<open>Conditions\<close>










lemma eval_condition_cases:
  "(\<exists>b. eval_condition c i st = (st, Some b)) \<or> (\<exists>d. eval_condition c i st = (error d i st, None))"
proof (cases "re_match RE_COND c")
  case None
  then show ?thesis
    by (intro disjI2 exI [of _ "InvalidCondition c"]) (simp add: eval_condition_def)
next
  case (Some m)
  let ?l = "strip (grp m 1)" and ?r = "strip (grp m 3)"
  consider (lfail) d where "eval_expr ?l i st = (error d i st, None)"
    | (rfail) lv d where "eval_expr ?l i st = (st, Some lv)" "eval_expr ?r i st = (error d i st, None)"
    | (ok) lv rv where "eval_expr ?l i st = (st, Some lv)" "eval_expr ?r i st = (st, Some rv)"
    using eval_expr_cases [of ?l i st] eval_expr_cases [of ?r i st] by blast
  then show ?thesis
  proof cases
    case lfail
    then have "eval_condition c i st = (error d i st, None)"
      by (simp add: eval_condition_def Some)
    then show ?thesis by blast
  next
    case rfail
    then have "eval_condition c i st = (error d i st, None)"
      by (simp add: eval_condition_def Some)
    then show ?thesis by blast
  next
    case ok
    then have "eval_condition c i st = apply_op (grp m 2) lv rv i st"
      by (simp add: eval_condition_def Some)
    then show ?thesis
      by (auto simp: apply_op_def split: sum.splits)
  qed
qed




section \<open>Assignment to an integer variable\<close>

text \<open>\<open>round_half_even\<close> and \<open>py_round\<close> give a nearest integer, and the even one at a
  tie.\<close>

lemma half_iff:
  fixes r q :: nat
  assumes "0 < q"
  shows "(2 * r < q \<longleftrightarrow> real r / real q < 1 / 2)"
    and "(2 * r = q \<longleftrightarrow> real r / real q = 1 / 2)"
    and "(q < 2 * r \<longleftrightarrow> 1 / 2 < real r / real q)"
proof -
  have q': "0 < real q" using assms by simp
  have a: "(2 * r < q) = (2 * real r < real q)"
    by (metis of_nat_less_iff of_nat_mult of_nat_numeral)
  have b: "(2 * r = q) = (2 * real r = real q)"
    by (metis of_nat_eq_iff of_nat_mult of_nat_numeral)
  have c: "(q < 2 * r) = (real q < 2 * real r)"
    by (metis of_nat_less_iff of_nat_mult of_nat_numeral)
  show "(2 * r < q \<longleftrightarrow> real r / real q < 1 / 2)"
    unfolding a using q' by (simp add: field_simps)
  show "(2 * r = q \<longleftrightarrow> real r / real q = 1 / 2)"
    unfolding b using q' by (auto simp: field_simps)
  show "(q < 2 * r \<longleftrightarrow> 1 / 2 < real r / real q)"
    unfolding c using q' by (simp add: field_simps)
qed

lemma round_half_even_nearest:
  assumes "0 < q"
  shows "\<bar>real (round_half_even p q) - real p / real q\<bar> \<le> 1 / 2 \<and>
    (\<bar>real (round_half_even p q) - real p / real q\<bar> = 1 / 2 \<longrightarrow> even (round_half_even p q))"
proof -
  define n r where "n = p div q" and "r = p mod q"
  define x where "x = real r / real q"
  have "p = n * q + r" by (simp add: n_def r_def)
  then have "real p = real n * real q + real r"
    by (metis of_nat_add of_nat_mult)
  with assms have frac: "real p / real q = real n + x"
    by (simp add: field_simps x_def)
  have rq: "r < q" using assms by (simp add: r_def)
  have x0: "0 \<le> x" by (simp add: x_def)
  have half: "(2 * r < q \<longleftrightarrow> x < 1 / 2) \<and> (2 * r = q \<longleftrightarrow> x = 1 / 2) \<and> (q < 2 * r \<longleftrightarrow> 1 / 2 < x)"
    unfolding x_def using half_iff [OF assms, of r] by blast
  have x1: "x < 1" using rq assms by (simp add: x_def)
  consider (up) "q < 2 * r" | (tie_odd) "2 * r = q" "odd n" | (tie_even) "2 * r = q" "even n"
    | (down) "2 * r < q" by linarith
  then show ?thesis
  proof cases
    case up
    then have res: "round_half_even p q = n + 1"
      by (simp add: round_half_even_def n_def r_def Let_def)
    from up half have "1 / 2 < x" by simp
    with x1 have "\<bar>real (n + 1) - (real n + x)\<bar> < 1 / 2" by simp
    then show ?thesis unfolding res frac by simp
  next
    case tie_odd
    then have res: "round_half_even p q = n + 1"
      by (simp add: round_half_even_def n_def r_def Let_def)
    from tie_odd half have "x = 1 / 2" by simp
    then have "\<bar>real (n + 1) - (real n + x)\<bar> = 1 / 2" by simp
    with tie_odd show ?thesis unfolding res frac by simp
  next
    case tie_even
    then have res: "round_half_even p q = n"
      by (simp add: round_half_even_def n_def r_def Let_def)
    from tie_even half have "x = 1 / 2" by simp
    then have "\<bar>real n - (real n + x)\<bar> = 1 / 2" by simp
    with tie_even show ?thesis unfolding res frac by simp
  next
    case down
    then have res: "round_half_even p q = n"
      by (simp add: round_half_even_def n_def r_def Let_def)
    from down half have "x < 1 / 2" by simp
    with x0 have "\<bar>real n - (real n + x)\<bar> < 1 / 2" by simp
    then show ?thesis unfolding res frac by simp
  qed
qed

lemma py_round_nearest:
  assumes "py_round (Fin s m e) = Inr n"
  shows "\<bar>real_of_int n - fin_value s m e\<bar> \<le> 1 / 2 \<and>
    (\<bar>real_of_int n - fin_value s m e\<bar> = 1 / 2 \<longrightarrow> even n)"
proof (cases "0 \<le> e")
  case True
  with assms have "real_of_int n = fin_value s m e"
    by (auto simp: fin_value_def signed_def)
  then show ?thesis by simp
next
  case False
  let ?q = "2 ^ nat (- e) :: nat"
  let ?k = "round_half_even m ?q"
  have q: "0 < ?q" by simp
  from False assms have n: "n = signed s ?k" by auto
  have v: "fin_value s m e = (if s then - (real m / real ?q) else real m / real ?q)"
    using False by (simp add: fin_value_def signed_def)
  have d: "\<bar>real_of_int n - fin_value s m e\<bar> = \<bar>real ?k - real m / real ?q\<bar>"
    unfolding n v by (cases s) (simp_all add: signed_def abs_minus_commute)
  have p: "even n \<longleftrightarrow> even ?k" unfolding n by (simp add: signed_def)
  from round_half_even_nearest [OF q, of m] show ?thesis unfolding d p by blast
qed

text \<open>
  Claim C1, as stated, fails: \<open>round\<close> sends a tie to the even neighbour, not away from
  zero. Assigning \<open>2.5\<close> to an \<open>integer\<close> variable stores 2 (the claim says 3), and
  assigning \<open>-2.5\<close> inside a conditional body stores -2 (the claim says -3).
\<close>

theorem integer_assignment_half_away_counterexample:
  "map_sum id (\<lambda>st. vars st ''x'') (run (''x: integer;'' @ [CHR 0x0A] @ ''x := 2.5;'')) =
     Inr (Some (''integer'', Some (PInt 2))) \<and>
   map_sum id (\<lambda>st. vars st ''x'') (run (''x: integer;'' @ [CHR 0x0A] @ ''if (1 < 2) x := -2.5;'')) =
     Inr (Some (''integer'', Some (PInt (- 2))))"
  by (simp add: evals)

text \<open>
  Claim C1, amended. An assignment (at top level or inside a conditional body) to a
  variable declared \<open>integer\<close>, whose expression evaluates to a value that \<open>float\<close>
  converts to a finite double, stores an \<open>int\<close> nearest to that double: at most one half
  away from it, and even when exactly one half away.
\<close>

theorem integer_assignment_rounds_half_even:
  assumes "vars st name = Some (''integer'', old)"
    and "eval_expr expr i st = (st', Some val)"
    and "py_float val = Inr (Fin s m e)"
  shows "\<exists>n. assign_stmt in_if name expr i st =
        Inr (st\<lparr>vars := (vars st)(name \<mapsto> (''integer'', Some (PInt n)))\<rparr>) \<and>
      \<bar>real_of_int n - fin_value s m e\<bar> \<le> 1 / 2 \<and>
      (\<bar>real_of_int n - fin_value s m e\<bar> = 1 / 2 \<longrightarrow> even n)"
proof -
  from assms(2) eval_expr_cases [of expr i st] have st': "st' = st" by auto
  obtain n where n: "py_round (Fin s m e) = Inr n" by (cases "py_round (Fin s m e)") auto
  have "assign_stmt in_if name expr i st =
      Inr (st\<lparr>vars := (vars st)(name \<mapsto> (''integer'', Some (PInt n)))\<rparr>)"
    using assms n st' by (simp add: assign_stmt_def)
  with py_round_nearest [OF n] show ?thesis by blast
qed

theorem integer_assignment_rounds_half_even_witness:
  "vars ((Interpreter_init [])\<lparr>vars := [''x'' \<mapsto> (''integer'', None)]\<rparr>) ''x'' = Some (''integer'', None) \<and>
   eval_expr ''2.5'' 2 ((Interpreter_init [])\<lparr>vars := [''x'' \<mapsto> (''integer'', None)]\<rparr>) =
     ((Interpreter_init [])\<lparr>vars := [''x'' \<mapsto> (''integer'', None)]\<rparr>, Some (PFloat (Fin False 5 (- 1)))) \<and>
   py_float (PFloat (Fin False 5 (- 1))) = Inr (Fin False 5 (- 1)) \<and>
   fin_value False 5 (- 1) = 5 / 2 \<and>
   assign_stmt True ''x'' ''2.5'' 2 ((Interpreter_init [])\<lparr>vars := [''x'' \<mapsto> (''integer'', None)]\<rparr>) =
     Inr ((Interpreter_init [])\<lparr>vars := [''x'' \<mapsto> (''integer'', Some (PInt 2))]\<rparr>)"
proof -
  let ?st = "(Interpreter_init [])\<lparr>vars := [''x'' \<mapsto> (''integer'', None)]\<rparr>"
  have a: "vars ?st ''x'' = Some (''integer'', None)" by (simp add: evals)
  have b: "eval_expr ''2.5'' 2 ?st = (?st, Some (PFloat (Fin False 5 (- 1))))" by (simp add: evals)
  have c: "py_float (PFloat (Fin False 5 (- 1))) = Inr (Fin False 5 (- 1))" by simp
  have v: "fin_value False 5 (- 1) = 5 / 2" by (simp add: fin_value_def signed_def)
  have r: "assign_stmt True ''x'' ''2.5'' 2 ?st =
     Inr ((Interpreter_init [])\<lparr>vars := [''x'' \<mapsto> (''integer'', Some (PInt 2))]\<rparr>)"
    by (simp add: evals)
  from integer_assignment_rounds_half_even [OF a b c, of True] a b c v r show ?thesis by blast
qed

text \<open>The value of a double survives normalisation.\<close>

lemma fin_value_powr: "fin_value s m e = real_of_int (signed s m) * 2 powr (real_of_int e)"
proof (cases "0 \<le> e")
  case True
  then have "2 powr (real_of_int e) = (2::real) ^ nat e"
    by (metis powr_realpow zero_less_numeral of_nat_nat)
  with True show ?thesis by (simp add: fin_value_def)
next
  case False
  then have "2 powr (real_of_int e) = 1 / (2::real) ^ nat (- e)"
    by (smt (verit) of_int_minus of_nat_nat powr_minus_divide powr_realpow zero_less_numeral)
  with False show ?thesis by (simp add: fin_value_def)
qed

lemma norm_me_value:
  "norm_me m e = (m', e') \<Longrightarrow> real m' * 2 powr (real_of_int e') = real m * 2 powr (real_of_int e)"
proof (induction m e rule: norm_me.induct)
  case (1 m e)
  show ?case
  proof (cases "m = 0")
    case True
    with "1.prems" show ?thesis by (simp add: norm_me.simps)
  next
    case nz: False
    show ?thesis
    proof (cases "even m")
      case True
      with nz "1.prems" have "norm_me (m div 2) (e + 1) = (m', e')"
        by (simp add: norm_me.simps [of m e])
      from "1.IH" [OF nz True this]
      have "real m' * 2 powr real_of_int e' = real (m div 2) * 2 powr real_of_int (e + 1)" .
      also have "\<dots> = real (m div 2) * 2 * 2 powr real_of_int e"
        by (simp add: powr_add)
      also from True have "real (m div 2) * 2 = real m"
        by (metis dvd_div_mult_self of_nat_mult of_nat_numeral)
      finally show ?thesis .
    next
      case False
      with nz "1.prems" show ?thesis by (simp add: norm_me.simps [of m e])
    qed
  qed
qed

lemma round_half_even_one: "round_half_even p 1 = p" "round_half_even p (Suc 0) = p"
  by (simp_all add: round_half_even_def)

lemma round_fl_eq:
  assumes "p \<noteq> 0"
    and "e = max (if scaled_ge p q (bitlen (int p) - bitlen (int q) - 53 + 53)
                  then bitlen (int p) - bitlen (int q) - 53 + 1
                  else bitlen (int p) - bitlen (int q) - 53) (- 1074)"
    and "n = (if 0 \<le> e then round_half_even p (q * 2 ^ nat e)
              else round_half_even (p * 2 ^ nat (- e)) q)"
    and "\<not> (971 < e \<or> (e = 971 \<and> 2 ^ 53 \<le> n))"
    and "norm_me n e = (m, e')"
  shows "round_fl neg p q = Fin neg m e'"
  using assms(1,4,5) unfolding round_fl_def Let_def assms(2) [symmetric] assms(3) [symmetric]
  by simp

text \<open>An \<open>int\<close> below \<open>2^53\<close> in absolute value converts to the double of the same
  value, so that an assignment of a whole number of that size to an \<open>integer\<close> variable
  stores that number.\<close>

lemma round_fl_small:
  assumes "0 < p" and "p < 2 ^ 53"
  shows "\<exists>m e. round_fl neg p 1 = Fin neg m e \<and> real m * 2 powr (real_of_int e) = real p"
proof -
  define b where "b = bitlen (int p)"
  have b1: "1 \<le> b" using assms(1) by (simp add: b_def bitlen_alt_def)
  have "int p < 2 ^ nat 53" using assms(2) by (metis nat_numeral of_nat_less_numeral_power_cancel_iff)
  then have b53: "b \<le> 53" unfolding b_def by (simp add: bitlen_le_iff_power)
  have lo: "2 ^ nat (b - 1) \<le> p"
    using bitlen_bounds [of "int p"] assms(1) unfolding b_def
    by (metis of_nat_0_less_iff of_nat_le_iff of_nat_numeral of_nat_power)
  define e where "e = b - 53"
  define n where "n = p * 2 ^ nat (- e)"
  have sg: "scaled_ge p 1 (b - 1)" using lo b1 by (simp add: scaled_ge_def)
  have e: "e \<le> 0" "- 1074 \<le> e" using b1 b53 by (simp_all add: e_def)
  have E: "e = max (if scaled_ge p 1 (bitlen (int p) - bitlen (int 1) - 53 + 53)
                  then bitlen (int p) - bitlen (int 1) - 53 + 1
                  else bitlen (int p) - bitlen (int 1) - 53) (- 1074)"
  proof -
    have one: "bitlen (int 1) = 1" by (simp add: compute_bitlen)
    have x: "bitlen (int p) - bitlen (int 1) - 53 + 53 = b - 1"
      "bitlen (int p) - bitlen (int 1) - 53 + 1 = e"
      unfolding one by (simp_all add: b_def e_def)
    show ?thesis unfolding x using sg e by simp
  qed
  have N: "n = (if 0 \<le> e then round_half_even p (1 * 2 ^ nat e)
      else round_half_even (p * 2 ^ nat (- e)) 1)"
    using e by (cases "e = 0") (simp_all add: n_def round_half_even_one)
  have O: "\<not> (971 < e \<or> (e = 971 \<and> 2 ^ 53 \<le> n))" using e by simp
  obtain m e' where me: "norm_me n e = (m, e')" by (cases "norm_me n e")
  have p0: "p \<noteq> 0" using assms(1) by simp
  have "round_fl neg p 1 = Fin neg m e'"
    by (rule round_fl_eq [OF p0 E N O me])
  moreover have "real m * 2 powr (real_of_int e') = real p"
  proof -
    have "real m * 2 powr (real_of_int e') = real n * 2 powr (real_of_int e)"
      by (rule norm_me_value [OF me])
    also have "\<dots> = real p * (2 ^ nat (- e) * 2 powr (real_of_int e))"
      by (simp add: n_def)
    also have "2 ^ nat (- e) * 2 powr (real_of_int e) = (1::real)"
    proof -
      have "(2::real) ^ nat (- e) = 2 powr (real_of_int (- e))"
        using e(1) by (metis neg_0_le_iff_le of_nat_nat powr_realpow zero_less_numeral)
      then show ?thesis by (simp add: powr_minus field_simps)
    qed
    finally show ?thesis by simp
  qed
  ultimately show ?thesis by blast
qed

lemma float_of_small_int:
  assumes "\<bar>v\<bar> < 2 ^ 53"
  shows "\<exists>s m e. float_of_int v = Inr (Fin s m e) \<and> fin_value s m e = real_of_int v"
proof (cases "v = 0")
  case True
  then show ?thesis
    by (auto simp: float_of_int_def round_fl_def fin_value_def signed_def)
next
  case False
  then have p: "0 < nat \<bar>v\<bar>" by simp
  from assms have "nat \<bar>v\<bar> < 2 ^ 53"
    by (metis abs_ge_zero nat_less_iff of_nat_numeral of_nat_power)
  from round_fl_small [OF p this, of "v < 0"] obtain m e where
    r: "round_fl (v < 0) (nat \<bar>v\<bar>) 1 = Fin (v < 0) m e"
    and v: "real m * 2 powr (real_of_int e) = real (nat \<bar>v\<bar>)" by blast
  from r have "float_of_int v = Inr (Fin (v < 0) m e)" by (simp add: float_of_int_def)
  moreover have "fin_value (v < 0) m e = real_of_int v"
    using v by (cases "v < 0") (simp_all add: fin_value_powr signed_def)
  ultimately show ?thesis by blast
qed

lemma integer_assignment_small_int:
  assumes "vars st name = Some (''integer'', old)"
    and "eval_expr expr i st = (st', Some (PInt v))"
    and "\<bar>v\<bar> < 2 ^ 53"
  shows "assign_stmt in_if name expr i st =
    Inr (st\<lparr>vars := (vars st)(name \<mapsto> (''integer'', Some (PInt v)))\<rparr>)"
proof -
  from assms(2) eval_expr_cases [of expr i st] have st': "st' = st" by auto
  from float_of_small_int [OF assms(3)] obtain s m e where
    f: "float_of_int v = Inr (Fin s m e)" and val: "fin_value s m e = real_of_int v" by blast
  obtain n where n: "py_round (Fin s m e) = Inr n" by (cases "py_round (Fin s m e)") auto
  from py_round_nearest [OF n] val have "\<bar>real_of_int n - real_of_int v\<bar> \<le> 1 / 2" by simp
  then have "\<bar>real_of_int (n - v)\<bar> < 1" by simp
  then have "\<bar>n - v\<bar> < 1" by (metis of_int_abs of_int_less_1_iff)
  then have "n = v" by simp
  with assms(1,2) f n st' show ?thesis by (simp add: assign_stmt_def)
qed

section \<open>Display of values\<close>

lemma digit_char_is_digit: "is_digit (digit_char d)"
proof -
  have "list_all is_digit ''0123456789''" by (simp add: is_digit_def code_def)
  moreover have "d mod 10 < length ''0123456789''" by simp
  ultimately show ?thesis unfolding digit_char_def list_all_length by blast
qed

lemma digits_of_digits: "list_all is_digit (digits_of n) \<and> digits_of n \<noteq> []"
proof (induction n rule: digits_of.induct)
  case (1 n)
  then show ?case
    by (simp add: digits_of.simps [of n] digit_char_is_digit)
qed

lemma minus_not_digit: "\<not> is_digit (CHR ''-'')"
  by (simp add: is_digit_def code_def)

lemma is_int_text_digits:
  assumes "list_all is_digit ds" and "ds \<noteq> []"
  shows "is_int_text ds" and "is_int_text (CHR ''-'' # ds)"
  using assms minus_not_digit by (cases ds; auto simp: is_int_text_def)+

lemma str_int_text: "is_int_text (str_int v)"
  using digits_of_digits is_int_text_digits by (simp add: str_int_def)

lemma format_2f_shape: "is_two_decimal_text (format_2f (Fin s m e))"
proof -
  define n where "n = (if 0 \<le> e then 100 * m * 2 ^ nat e else round_half_even (100 * m) (2 ^ nat (- e)))"
  let ?ip = "(if s then ''-'' else []) @ digits_of (n div 100)"
  have "format_2f (Fin s m e) = ?ip @ [CHR ''.'', digit_char (n mod 100 div 10), digit_char (n mod 10)]"
    by (simp add: n_def Let_def)
  moreover have "is_int_text ?ip"
    using digits_of_digits [of "n div 100"] is_int_text_digits by simp
  ultimately show ?thesis
    using digit_char_is_digit by (simp add: is_two_decimal_text_def)
qed

text \<open>\<open>float(v)\<close> of an \<open>int\<close> is a whole double: normalisation divides out no more
  factors of two than the scaling has put in.\<close>

lemma norm_me_exponent:
  "norm_me n e = (m, e') \<Longrightarrow> 2 ^ k dvd n \<Longrightarrow> 0 \<le> e + int k \<Longrightarrow> 0 \<le> e'"
proof (induction n e arbitrary: k rule: norm_me.induct)
  case (1 n e)
  show ?case
  proof (cases "n = 0")
    case True
    with "1.prems"(1) show ?thesis by (simp add: norm_me.simps)
  next
    case nz: False
    show ?thesis
    proof (cases "even n")
      case True
      with nz "1.prems"(1) have step: "norm_me (n div 2) (e + 1) = (m, e')"
        by (simp add: norm_me.simps [of n e])
      show ?thesis
      proof (cases k)
        case 0
        with "1.prems"(3) have "0 \<le> e + 1 + int 0" by simp
        from "1.IH" [OF nz True step _ this] show ?thesis by simp
      next
        case (Suc j)
        with "1.prems"(2) obtain c where "n = 2 * (2 ^ j * c)" by (auto elim: dvdE)
        then have d: "2 ^ j dvd n div 2" by simp
        from Suc "1.prems"(3) have "0 \<le> e + 1 + int j" by simp
        from "1.IH" [OF nz True step d this] show ?thesis .
      qed
    next
      case False
      with nz "1.prems"(1) have eq: "e' = e" by (simp add: norm_me.simps [of n e])
      have "k = 0"
      proof (rule ccontr)
        assume "k \<noteq> 0"
        then have "(2::nat) dvd 2 ^ k" by simp
        with "1.prems"(2) have "2 dvd n" by (meson dvd_trans)
        with False show False by simp
      qed
      with "1.prems"(3) eq show ?thesis by simp
    qed
  qed
qed

lemma round_fl_inf:
  assumes "p \<noteq> 0"
    and "e = max (if scaled_ge p q (bitlen (int p) - bitlen (int q) - 53 + 53)
                  then bitlen (int p) - bitlen (int q) - 53 + 1
                  else bitlen (int p) - bitlen (int q) - 53) (- 1074)"
    and "n = (if 0 \<le> e then round_half_even p (q * 2 ^ nat e)
              else round_half_even (p * 2 ^ nat (- e)) q)"
    and "971 < e \<or> (e = 971 \<and> 2 ^ 53 \<le> n)"
  shows "round_fl neg p q = Inf neg"
  using assms(1,4) unfolding round_fl_def Let_def assms(2) [symmetric] assms(3) [symmetric]
  by simp

lemma float_of_int_whole:
  assumes "float_of_int v = Inr f"
  shows "fl_is_integer f"
proof (cases "v = 0")
  case True
  with assms show ?thesis by (auto simp: float_of_int_def round_fl_def)
next
  case False
  define p where "p = nat \<bar>v\<bar>"
  have p0: "p \<noteq> 0" using False by (simp add: p_def)
  define e where "e = max (if scaled_ge p 1 (bitlen (int p) - bitlen (int 1) - 53 + 53)
                  then bitlen (int p) - bitlen (int 1) - 53 + 1
                  else bitlen (int p) - bitlen (int 1) - 53) (- 1074)"
  define n where "n = (if 0 \<le> e then round_half_even p (1 * 2 ^ nat e)
              else round_half_even (p * 2 ^ nat (- e)) 1)"
  show ?thesis
  proof (cases "971 < e \<or> (e = 971 \<and> 2 ^ 53 \<le> n)")
    case True
    have "round_fl (v < 0) p 1 = Inf (v < 0)"
      by (rule round_fl_inf [OF p0 e_def n_def True])
    with assms show ?thesis by (simp add: float_of_int_def p_def)
  next
    case fin: False
    obtain m e' where me: "norm_me n e = (m, e')" by (cases "norm_me n e")
    have r: "round_fl (v < 0) p 1 = Fin (v < 0) m e'"
      by (rule round_fl_eq [OF p0 e_def n_def fin me])
    with assms have f: "f = Fin (v < 0) m e'" by (simp add: float_of_int_def p_def)
    have "0 \<le> e'"
    proof (cases "0 \<le> e")
      case True
      then have "0 \<le> e + int 0" by simp
      from norm_me_exponent [OF me _ this] show ?thesis by simp
    next
      case False
      then have "n = p * 2 ^ nat (- e)" by (simp add: n_def round_half_even_one)
      then have d: "2 ^ nat (- e) dvd n" by simp
      from False have "0 \<le> e + int (nat (- e))" by simp
      from norm_me_exponent [OF me d this] show ?thesis .
    qed
    with f show ?thesis by simp
  qed
qed

text \<open>The text that \<open>display\<close> gives for each kind of number.\<close>

lemma display_float:
  "\<not> fl_is_integer (Fin s m e) \<Longrightarrow> display (PFloat (Fin s m e)) = Inr (format_2f (Fin s m e))"
  "fl_is_integer (Fin s m e) \<Longrightarrow> display (PFloat (Fin s m e)) = Inr (str_int (signed s (m * 2 ^ nat e)))"
  "display (PFloat (Inf neg)) = Inr (if neg then ''-inf'' else ''inf'')"
  "display (PFloat NaN) = Inr ''nan''"
  by (simp_all add: display_def int_or_str_def)

lemma display_int:
  "float_of_int v = Inr f \<Longrightarrow> \<exists>n. fl_int f = Inr n \<and> display (PInt v) = Inr (str_int n)"
  "float_of_int v = Inl ex \<Longrightarrow> display (PInt v) = str_int_checked v"
proof -
  assume f: "float_of_int v = Inr f"
  from float_of_int_whole [OF f] obtain s m e where "f = Fin s m e" "0 \<le> e"
    by (cases f) auto
  with f show "\<exists>n. fl_int f = Inr n \<and> display (PInt v) = Inr (str_int n)"
    by (simp add: display_def int_or_str_def)
next
  assume "float_of_int v = Inl ex"
  then show "display (PInt v) = str_int_checked v"
    by (simp add: display_def int_or_str_def py_str_checked_def)
qed

lemma small_int_converts_exactly:
  assumes "\<bar>v\<bar> < 2 ^ 53" and "float_of_int v = Inr f"
  shows "fl_int f = Inr v"
proof -
  from float_of_small_int [OF assms(1)] assms(2) obtain s m e where
    f: "f = Fin s m e" and val: "fin_value s m e = real_of_int v" by auto
  from float_of_int_whole [OF assms(2)] f have e: "0 \<le> e" by simp
  with val have "real_of_int (signed s m * 2 ^ nat e) = real_of_int v"
    by (simp add: fin_value_def)
  then have "signed s m * 2 ^ nat e = v" by (simp only: of_int_eq_iff)
  then have "signed s (m * 2 ^ nat e) = v" by (simp add: signed_def split: if_splits)
  with f e show ?thesis by simp
qed

text \<open>An \<open>int\<close> that is too large for a \<open>float\<close> and has more than 4300 digits has no
  display: the ValueError of \<open>str(val)\<close> in the bare \<open>except\<close> ends the run.\<close>

lemma display_huge_int:
  assumes "float_of_int v = Inl ex" and "int_max_str_digits < length (digits_of (nat \<bar>v\<bar>))"
  shows "display (PInt v) = Inl ValueError"
  using assms display_int(2) [OF assms(1)] by (simp add: str_int_checked_def)

lemma replicate_numeral: "replicate (numeral k) x = x # replicate (pred_numeral k) x"
  by (simp add: numeral_eq_Suc)

text \<open>
  Claim C6, as stated, fails: a float literal beyond the range of a double evaluates to
  the number \<open>inf\<close>, which is a \<open>float\<close> for which \<open>is_integer()\<close> does not hold, and is
  emitted as \<open>inf\<close>: neither a text with two decimal digits nor an integer text.
\<close>

theorem display_format_counterexample:
  "eval_expr (''1'' @ replicate 309 (CHR ''0'') @ ''.0'') 1 (Interpreter_init []) =
     (Interpreter_init [], Some (PFloat (Inf False))) \<and>
   report (run (''output << 1'' @ replicate 309 (CHR ''0'') @ ''.0;'')) = Inr ([''inf''], []) \<and>
   \<not> is_two_decimal_text ''inf'' \<and> \<not> is_int_text ''inf''"
  by (simp add: evals replicate_numeral is_two_decimal_text_def is_int_text_def)

text \<open>
  Claim C6, amended. An output statement whose payload is an expression (not a quoted
  string) that evaluates to an \<open>int\<close> or a \<open>float\<close> emits one text:
  \<^item> for a finite \<open>float\<close> that is not whole, the value rounded to two decimals: an
    integer text, a point and exactly two digits (\<open>4.5\<close> gives \<open>4.50\<close>);
  \<^item> for a whole \<open>float\<close>, the integer text of its value, with no decimal point (\<open>4.0\<close>
    gives \<open>4\<close>);
  \<^item> for an \<open>int\<close> that \<open>float\<close> converts, the integer text of the converted value, which
    is the \<open>int\<close> itself when it is below \<open>2^53\<close> in absolute value;
  \<^item> for an \<open>int\<close> too large for a \<open>float\<close> and of at most 4300 digits, its own integer
    text;
  \<^item> for an infinite \<open>float\<close> or a not-a-number, \<open>inf\<close>, \<open>-inf\<close> or \<open>nan\<close>.
\<close>

theorem display_format:
  assumes "\<not> is_quoted payload" and "eval_expr payload i st = (st', Some val)"
  shows "(\<forall>s m e. val = PFloat (Fin s m e) \<and> \<not> fl_is_integer (Fin s m e) \<longrightarrow>
      output_stmt payload i st = Inr (st\<lparr>outputs := outputs st @ [format_2f (Fin s m e)]\<rparr>) \<and>
      is_two_decimal_text (format_2f (Fin s m e))) \<and>
    (\<forall>s m e. val = PFloat (Fin s m e) \<and> fl_is_integer (Fin s m e) \<longrightarrow>
      output_stmt payload i st =
        Inr (st\<lparr>outputs := outputs st @ [str_int (signed s (m * 2 ^ nat e))]\<rparr>) \<and>
      is_int_text (str_int (signed s (m * 2 ^ nat e)))) \<and>
    (\<forall>v f. val = PInt v \<and> float_of_int v = Inr f \<longrightarrow>
      (\<exists>n. fl_int f = Inr n \<and> (\<bar>v\<bar> < 2 ^ 53 \<longrightarrow> n = v) \<and>
         output_stmt payload i st = Inr (st\<lparr>outputs := outputs st @ [str_int n]\<rparr>) \<and>
         is_int_text (str_int n))) \<and>
    (\<forall>v ex. val = PInt v \<and> float_of_int v = Inl ex \<and>
        length (digits_of (nat \<bar>v\<bar>)) \<le> int_max_str_digits \<longrightarrow>
      output_stmt payload i st = Inr (st\<lparr>outputs := outputs st @ [str_int v]\<rparr>) \<and>
      is_int_text (str_int v)) \<and>
    (\<forall>neg. val = PFloat (Inf neg) \<longrightarrow>
      output_stmt payload i st =
        Inr (st\<lparr>outputs := outputs st @ [if neg then ''-inf'' else ''inf'']\<rparr>)) \<and>
    (val = PFloat NaN \<longrightarrow>
      output_stmt payload i st = Inr (st\<lparr>outputs := outputs st @ [''nan'']\<rparr>))"
proof -
  from assms(2) eval_expr_cases [of payload i st] have st': "st' = st" by auto
  have out: "output_stmt payload i st = Inr (st\<lparr>outputs := outputs st @ [t]\<rparr>)"
    if "display val = Inr t" for t
    using assms st' that by (simp add: output_stmt_def)
  have frac: "output_stmt payload i st = Inr (st\<lparr>outputs := outputs st @ [format_2f (Fin s m e)]\<rparr>) \<and>
      is_two_decimal_text (format_2f (Fin s m e))"
    if h: "val = PFloat (Fin s m e) \<and> \<not> fl_is_integer (Fin s m e)" for s m e
  proof -
    from h display_float(1) have "display val = Inr (format_2f (Fin s m e))" by simp
    from out [OF this] format_2f_shape show ?thesis by simp
  qed
  have whole: "output_stmt payload i st =
        Inr (st\<lparr>outputs := outputs st @ [str_int (signed s (m * 2 ^ nat e))]\<rparr>) \<and>
      is_int_text (str_int (signed s (m * 2 ^ nat e)))"
    if h: "val = PFloat (Fin s m e) \<and> fl_is_integer (Fin s m e)" for s m e
  proof -
    from h display_float(2) have "display val = Inr (str_int (signed s (m * 2 ^ nat e)))" by simp
    from out [OF this] str_int_text show ?thesis by simp
  qed
  have conv: "\<exists>n. fl_int f = Inr n \<and> (\<bar>v\<bar> < 2 ^ 53 \<longrightarrow> n = v) \<and>
         output_stmt payload i st = Inr (st\<lparr>outputs := outputs st @ [str_int n]\<rparr>) \<and>
         is_int_text (str_int n)"
    if "val = PInt v \<and> float_of_int v = Inr f" for v f
  proof -
    from that display_int(1) obtain n where n: "fl_int f = Inr n"
      "display val = Inr (str_int n)" by blast
    have "n = v" if small: "\<bar>v\<bar> < 2 ^ 53"
      using small_int_converts_exactly [OF small] that n(1) \<open>val = PInt v \<and> float_of_int v = Inr f\<close>
      by simp
    with n out [OF n(2)] str_int_text show ?thesis by blast
  qed
  have big: "output_stmt payload i st = Inr (st\<lparr>outputs := outputs st @ [str_int v]\<rparr>) \<and>
      is_int_text (str_int v)"
    if "val = PInt v \<and> float_of_int v = Inl ex \<and> length (digits_of (nat \<bar>v\<bar>)) \<le> int_max_str_digits"
    for v ex
  proof -
    from that display_int(2) [of v ex] have "display val = Inr (str_int v)"
      by (simp add: str_int_checked_def)
    from out [OF this] str_int_text show ?thesis by simp
  qed
  have inf: "output_stmt payload i st =
        Inr (st\<lparr>outputs := outputs st @ [if neg then ''-inf'' else ''inf'']\<rparr>)"
    if h: "val = PFloat (Inf neg)" for neg
  proof -
    from h display_float(3) have "display val = Inr (if neg then ''-inf'' else ''inf'')" by simp
    from out [OF this] show ?thesis .
  qed
  have nan: "output_stmt payload i st = Inr (st\<lparr>outputs := outputs st @ [''nan'']\<rparr>)"
    if h: "val = PFloat NaN"
  proof -
    from h display_float(4) have "display val = Inr ''nan''" by simp
    from out [OF this] show ?thesis .
  qed
  from frac whole conv big inf nan show ?thesis by blast
qed

theorem display_format_witness:
  "\<not> is_quoted ''4.5'' \<and>
   eval_expr ''4.5'' 1 (Interpreter_init []) = (Interpreter_init [], Some (PFloat (Fin False 9 (- 1)))) \<and>
   \<not> fl_is_integer (Fin False 9 (- 1)) \<and>
   output_stmt ''4.5'' 1 (Interpreter_init []) = Inr ((Interpreter_init [])\<lparr>outputs := [''4.50'']\<rparr>) \<and>
   is_two_decimal_text ''4.50'' \<and>
   eval_expr ''4.0'' 1 (Interpreter_init []) = (Interpreter_init [], Some (PFloat (Fin False 1 2))) \<and>
   fl_is_integer (Fin False 1 2) \<and>
   output_stmt ''4.0'' 1 (Interpreter_init []) = Inr ((Interpreter_init [])\<lparr>outputs := [''4'']\<rparr>) \<and>
   is_int_text ''4''"
proof -
  have a: "\<not> is_quoted ''4.5''" by (simp add: is_quoted_def)
  have b: "eval_expr ''4.5'' 1 (Interpreter_init []) = (Interpreter_init [], Some (PFloat (Fin False 9 (- 1))))"
    by (simp add: evals)
  have c: "\<not> fl_is_integer (Fin False 9 (- 1))" by simp
  have f25: "format_2f (Fin False 9 (- 1)) = ''4.50''" by (simp add: evals)
  from display_format [OF a b] c
  have d: "output_stmt ''4.5'' 1 (Interpreter_init []) =
      Inr ((Interpreter_init [])\<lparr>outputs := outputs (Interpreter_init []) @ [format_2f (Fin False 9 (- 1))]\<rparr>) \<and>
      is_two_decimal_text (format_2f (Fin False 9 (- 1)))"
    by blast
  have e: "eval_expr ''4.0'' 1 (Interpreter_init []) = (Interpreter_init [], Some (PFloat (Fin False 1 2)))"
    by (simp add: evals)
  have f: "fl_is_integer (Fin False 1 2)" by simp
  have g: "output_stmt ''4.0'' 1 (Interpreter_init []) = Inr ((Interpreter_init [])\<lparr>outputs := [''4'']\<rparr>)"
    by (simp add: evals)
  have h: "is_int_text ''4''" by (simp add: is_int_text_def char_eval)
  from d have d': "output_stmt ''4.5'' 1 (Interpreter_init []) = Inr ((Interpreter_init [])\<lparr>outputs := [''4.50'']\<rparr>)"
    "is_two_decimal_text ''4.50''"
    unfolding f25 by (simp_all add: Interpreter_init_def)
  from a b c d' e f g h show ?thesis by blast
qed

section \<open>Conditional lines\<close>

text \<open>
  Claim C7. A line that reaches the conditional handler (it matches none of the
  declaration, assignment and output patterns and matches the \<open>if\<close> pattern) and whose
  condition evaluates to false leaves the interpreter exactly as it was: variables,
  outputs and diagnostics. The inner statement is not looked at, so this holds for any
  inner statement, malformed or not.
\<close>

theorem false_condition_no_effect:
  assumes "re_match RE_DECL (strip raw_line) = None"
    and "re_match RE_ASSIGN (strip raw_line) = None"
    and "re_match RE_OUTPUT (strip raw_line) = None"
    and "re_match RE_IF (strip raw_line) = Some m"
    and "snd (eval_condition (strip (grp m 1)) i st) = Some False"
  shows "process_line i raw_line st = Inr st \<and>
    (\<forall>stmt. if_stmt (strip (grp m 1)) stmt i st = Inr st)"
proof -
  from assms(5) eval_condition_cases [of "strip (grp m 1)" i st]
  have c: "eval_condition (strip (grp m 1)) i st = (st, Some False)" by auto
  then have stmt: "if_stmt (strip (grp m 1)) stmt i st = Inr st" for stmt
    by (simp add: if_stmt_def)
  have "re_match RE_IF [] = None" by (simp add: re_eval)
  with assms(4) have "strip raw_line \<noteq> []" by auto
  with assms(1-4) stmt show ?thesis
    by (simp add: process_line_def)
qed

theorem false_condition_no_effect_witness:
  "re_match RE_DECL (strip ''if (1 > 2) garbage'') = None \<and>
   re_match RE_ASSIGN (strip ''if (1 > 2) garbage'') = None \<and>
   re_match RE_OUTPUT (strip ''if (1 > 2) garbage'') = None \<and>
   map_option (\<lambda>m. (grp m 1, grp m 2)) (re_match RE_IF (strip ''if (1 > 2) garbage'')) =
     Some (''1 > 2'', ''garbage'') \<and>
   snd (eval_condition ''1 > 2'' 1 (Interpreter_init [])) = Some False \<and>
   process_line 1 ''if (1 > 2) garbage'' (Interpreter_init []) = Inr (Interpreter_init [])"
proof -
  let ?m = "the (re_match RE_IF (strip ''if (1 > 2) garbage''))"
  have a: "re_match RE_DECL (strip ''if (1 > 2) garbage'') = None" by (simp add: evals)
  have b: "re_match RE_ASSIGN (strip ''if (1 > 2) garbage'') = None" by (simp add: evals)
  have c: "re_match RE_OUTPUT (strip ''if (1 > 2) garbage'') = None" by (simp add: evals)
  have d: "re_match RE_IF (strip ''if (1 > 2) garbage'') = Some ?m" by (simp add: evals)
  have f: "map_option (\<lambda>m. (grp m 1, grp m 2)) (re_match RE_IF (strip ''if (1 > 2) garbage'')) =
     Some (''1 > 2'', ''garbage'')" by (simp add: evals)
  have g: "strip (grp ?m 1) = ''1 > 2''" by (simp add: evals)
  have e: "snd (eval_condition ''1 > 2'' 1 (Interpreter_init [])) = Some False"
    by (simp add: evals)
  have e': "snd (eval_condition (strip (grp ?m 1)) 1 (Interpreter_init [])) = Some False"
    unfolding g by (rule e)
  have "process_line 1 ''if (1 > 2) garbage'' (Interpreter_init []) = Inr (Interpreter_init [])"
    using false_condition_no_effect [OF a b c d e'] by (rule conjunct1)
  with a b c f e show ?thesis by blast
qed

section \<open>Runs\<close>

text \<open>What one statement and one line do to the interpreter: at most one diagnostic
  is added, with the number of the line; the names declared and their types stay, and
  only a declaration adds a name.\<close>

lemma condition_kinds:
  assumes "eval_condition c i st = (error d i st, None)"
  shows "\<forall>y. d \<noteq> Redeclared y"
proof (cases "re_match RE_COND c")
  case None
  with assms have "error d i st = error (InvalidCondition c) i st" by (simp add: eval_condition_def)
  from error_inject [OF this] show ?thesis by simp
next
  case (Some m)
  let ?l = "strip (grp m 1)" and ?r = "strip (grp m 3)"
  consider (lfail) d' where "eval_expr ?l i st = (error d' i st, None)" "\<forall>y. d' \<noteq> Redeclared y"
    | (rfail) lv d' where "eval_expr ?l i st = (st, Some lv)"
        "eval_expr ?r i st = (error d' i st, None)" "\<forall>y. d' \<noteq> Redeclared y"
    | (ok) lv rv where "eval_expr ?l i st = (st, Some lv)" "eval_expr ?r i st = (st, Some rv)"
    using eval_expr_cases [of ?l i st] eval_expr_cases [of ?r i st] by blast
  then show ?thesis
  proof cases
    case lfail
    with assms Some have "error d i st = error d' i st" by (simp add: eval_condition_def)
    from error_inject [OF this] lfail show ?thesis by simp
  next
    case rfail
    with assms Some have "error d i st = error d' i st" by (simp add: eval_condition_def)
    from error_inject [OF this] rfail show ?thesis by simp
  next
    case ok
    with assms Some have "apply_op (grp m 2) lv rv i st = (error d i st, None)"
      by (simp add: eval_condition_def)
    then have "error d i st = error CondError i st \<or>
        error d i st = error (UnsupportedOperator (grp m 2)) i st"
      by (auto simp: apply_op_def split: if_splits sum.splits)
    then show ?thesis by (auto dest: error_inject)
  qed
qed

lemma assign_stmt_errors:
  assumes "assign_stmt in_if name expr i st = Inr st'"
  shows "(errors st' = errors st \<or> (\<exists>d. errors st' = errors st @ [(i, d)] \<and> (\<forall>y. d \<noteq> Redeclared y))) \<and>
    outputs st' = outputs st \<and> source_lines st' = source_lines st \<and>
    (\<forall>x. (vars st' x = None \<longleftrightarrow> vars st x = None) \<and>
      (\<forall>t v. vars st x = Some (t, v) \<longrightarrow> (\<exists>v'. vars st' x = Some (t, v'))))"
proof (cases "vars st name")
  case None
  with assms show ?thesis by (cases in_if) (auto simp: assign_stmt_def error_def)
next
  case (Some tv)
  obtain ty old where tv: "tv = (ty, old)" by (cases tv)
  consider (ok) v where "eval_expr expr i st = (st, Some v)"
    | (fail) d where "eval_expr expr i st = (error d i st, None)" "\<forall>y. d \<noteq> Redeclared y"
    using eval_expr_cases [of expr i st] by blast
  then show ?thesis
  proof cases
    case ok
    with assms Some tv show ?thesis
      by (auto simp: assign_stmt_def error_def split: if_splits sum.splits)
  next
    case fail
    with assms Some tv show ?thesis
      by (auto simp: assign_stmt_def error_def)
  qed
qed

lemma output_stmt_errors:
  assumes "output_stmt payload i st = Inr st'"
  shows "(errors st' = errors st \<or> (\<exists>d. errors st' = errors st @ [(i, d)] \<and> (\<forall>y. d \<noteq> Redeclared y))) \<and>
    vars st' = vars st \<and> source_lines st' = source_lines st"
proof (cases "is_quoted payload")
  case True
  with assms show ?thesis by (auto simp: output_stmt_def)
next
  case False
  consider (ok) v where "eval_expr payload i st = (st, Some v)"
    | (fail) d where "eval_expr payload i st = (error d i st, None)" "\<forall>y. d \<noteq> Redeclared y"
    using eval_expr_cases [of payload i st] by blast
  then show ?thesis
  proof cases
    case ok
    with assms False show ?thesis by (auto simp: output_stmt_def split: sum.splits)
  next
    case fail
    with assms False show ?thesis by (auto simp: output_stmt_def error_def)
  qed
qed

lemma if_stmt_errors:
  assumes "if_stmt cond stmt i st = Inr st'"
  shows "(errors st' = errors st \<or> (\<exists>d. errors st' = errors st @ [(i, d)] \<and> (\<forall>y. d \<noteq> Redeclared y))) \<and>
    source_lines st' = source_lines st \<and>
    (\<forall>x. (vars st' x = None \<longleftrightarrow> vars st x = None) \<and>
      (\<forall>t v. vars st x = Some (t, v) \<longrightarrow> (\<exists>v'. vars st' x = Some (t, v'))))"
proof -
  from eval_condition_cases [of cond i st] show ?thesis
  proof (elim disjE exE)
    fix d assume c: "eval_condition cond i st = (error d i st, None)"
    then have k: "\<forall>y. d \<noteq> Redeclared y"
      using condition_kinds by blast
    from c assms have "st' = error d i st" by (simp add: if_stmt_def)
    with k show ?thesis by (auto simp: error_def)
  next
    fix b assume c: "eval_condition cond i st = (st, Some b)"
    show ?thesis
    proof (cases b)
      case False
      with c assms show ?thesis by (simp add: if_stmt_def)
    next
      case True
      show ?thesis
      proof (cases "stmt = [] \<or> last stmt \<noteq> CHR '';''")
        case True
        with c \<open>b\<close> assms show ?thesis by (auto simp: if_stmt_def error_def)
      next
        case False
        show ?thesis
        proof (cases "re_match RE_ASSIGN stmt")
          case (Some m2)
          with c \<open>b\<close> False assms
          have "assign_stmt True (grp m2 1) (strip (grp m2 2)) i st = Inr st'"
            by (simp add: if_stmt_def)
          from assign_stmt_errors [OF this] show ?thesis by blast
        next
          case None
          show ?thesis
          proof (cases "re_match RE_OUTPUT stmt")
            case (Some m2)
            with c \<open>b\<close> False None assms
            have "output_stmt (strip (grp m2 1)) i st = Inr st'" by (simp add: if_stmt_def)
            from output_stmt_errors [OF this] show ?thesis by auto
          next
            case N: None
            with c \<open>b\<close> False None assms show ?thesis by (auto simp: if_stmt_def error_def)
          qed
        qed
      qed
    qed
  qed
qed

lemma process_line_declaration:
  assumes "declaration_of l = Some (name, ty)"
  shows "process_line i l st =
    (if vars st name \<noteq> None then Inr (error (Redeclared name) i st)
     else Inr (st\<lparr>vars := (vars st)(name \<mapsto> (ty, None))\<rparr>))"
proof -
  from assms obtain m where m: "re_match RE_DECL (strip l) = Some m" "grp m 1 = name"
    "lower (grp m 2) = ty" by (auto simp: declaration_of_def)
  have "re_match RE_DECL [] = None" by (simp add: re_eval)
  with m have "strip l \<noteq> []" by auto
  with m show ?thesis by (simp add: process_line_def Let_def)
qed

lemma process_line_step:
  assumes "process_line i l st = Inr st'"
  shows "(errors st' = errors st \<or>
      (\<exists>d. errors st' = errors st @ [(i, d)] \<and>
         (\<forall>y. d = Redeclared y \<longrightarrow> (\<exists>t. declaration_of l = Some (y, t))))) \<and>
    source_lines st' = source_lines st \<and>
    (\<forall>x. (\<forall>t v. vars st x = Some (t, v) \<longrightarrow> (\<exists>v'. vars st' x = Some (t, v'))) \<and>
      ((\<forall>t. declaration_of l \<noteq> Some (x, t)) \<longrightarrow> (vars st' x = None \<longleftrightarrow> vars st x = None)))"
proof (cases "strip l = []")
  case True
  with assms show ?thesis by (simp add: process_line_def)
next
  case ne: False
  show ?thesis
  proof (cases "re_match RE_DECL (strip l)")
    case (Some m)
    then have d: "declaration_of l = Some (grp m 1, lower (grp m 2))"
      by (simp add: declaration_of_def)
    from process_line_declaration [OF d, of i st] assms show ?thesis
      by (auto simp: d error_def split: if_splits)
  next
    case nd: None
    show ?thesis
    proof (cases "re_match RE_ASSIGN (strip l)")
      case (Some m)
      with ne nd assms have "assign_stmt False (grp m 1) (strip (grp m 2)) i st = Inr st'"
        by (simp add: process_line_def)
      from assign_stmt_errors [OF this] show ?thesis by blast
    next
      case na: None
      show ?thesis
      proof (cases "re_match RE_OUTPUT (strip l)")
        case (Some m)
        with ne nd na assms have "output_stmt (strip (grp m 1)) i st = Inr st'"
          by (simp add: process_line_def)
        from output_stmt_errors [OF this] show ?thesis by auto
      next
        case no: None
        show ?thesis
        proof (cases "re_match RE_IF (strip l)")
          case (Some m)
          with ne nd na no assms have "if_stmt (strip (grp m 1)) (strip (grp m 2)) i st = Inr st'"
            by (simp add: process_line_def)
          from if_stmt_errors [OF this] show ?thesis by blast
        next
          case None
          with ne nd na no assms show ?thesis
            by (auto simp: process_line_def error_def)
        qed
      qed
    qed
  qed
qed

lemma run_lines_append:
  "run_lines i (xs @ ys) st =
     (case run_lines i xs st of Inl ex \<Rightarrow> Inl ex | Inr st1 \<Rightarrow> run_lines (i + length xs) ys st1)"
  by (induction xs arbitrary: i st) (auto split: sum.splits)

lemma run_lines_errors:
  "run_lines i ls st = Inr st' \<Longrightarrow>
     \<exists>es. errors st' = errors st @ es \<and> sorted_wrt (<) (map fst es) \<and>
       (\<forall>n \<in> set (map fst es). i \<le> n \<and> n < i + length ls)"
proof (induction ls arbitrary: i st)
  case Nil
  then show ?case by simp
next
  case (Cons l ls)
  from Cons.prems obtain st1 where 1: "process_line i l st = Inr st1"
    and 2: "run_lines (Suc i) ls st1 = Inr st'"
    by (auto split: sum.splits)
  from Cons.IH [OF 2] obtain es where es: "errors st' = errors st1 @ es"
    "sorted_wrt (<) (map fst es)" "\<forall>n \<in> set (map fst es). Suc i \<le> n \<and> n < Suc i + length ls"
    by blast
  from process_line_step [OF 1]
  consider "errors st1 = errors st" | d where "errors st1 = errors st @ [(i, d)]" by blast
  then show ?case
  proof cases
    case 1
    with es show ?thesis by (intro exI [of _ es]) auto
  next
    case 2
    with es show ?thesis by (intro exI [of _ "(i, d) # es"]) auto
  qed
qed

lemma distinct_filter_le_one:
  "distinct (map f xs) \<Longrightarrow> length (filter (\<lambda>x. f x = k) xs) \<le> 1"
  by (induction xs) (auto simp: filter_empty_conv image_iff)

text \<open>
  The methods on the store do to the objects of \<open>self\<close> what the functions on
  \<open>Interpreter\<close> values say, and touch no other object.
\<close>

lemmas store_defs = owns_def view_def put_def get_lines_def get_vars_def get_errors_def
  get_outputs_def

lemma view_put: "owns self h \<Longrightarrow> view self (put self st h) = st"
  by (auto simp: store_defs)

lemma put_view: "owns self h \<Longrightarrow> put self (view self h) h = h"
  by (auto simp: store_defs list_eq_iff_nth_eq nth_list_update)

lemma put_put: "owns self h \<Longrightarrow> put self st' (put self st h) = put self st' h"
  by (auto simp: store_defs list_eq_iff_nth_eq nth_list_update)

lemma owns_put: "owns self h \<Longrightarrow> owns self (put self st h)"
  by (auto simp: store_defs)

lemma get_vars_view: "get_vars self h = vars (view self h)"
  by (simp add: view_def)

lemma error_at_put: "owns self h \<Longrightarrow> error_at d i self h = put self (error d i (view self h)) h"
  by (auto simp: store_defs error_at_def error_def list_eq_iff_nth_eq nth_list_update)

lemma set_var_put:
  "owns self h \<Longrightarrow> set_var name tv self h = put self ((view self h)\<lparr>vars := (vars (view self h))(name \<mapsto> tv)\<rparr>) h"
  by (auto simp: store_defs set_var_def list_eq_iff_nth_eq nth_list_update)

lemma append_output_put:
  "owns self h \<Longrightarrow> append_output t self h =
     put self ((view self h)\<lparr>outputs := outputs (view self h) @ [t]\<rparr>) h"
  by (auto simp: store_defs append_output_def list_eq_iff_nth_eq nth_list_update)

lemmas lens = view_put put_view put_put owns_put

lemma eval_expr_at_sim:
  "owns self h \<Longrightarrow> eval_expr_at e i self h =
     (case eval_expr e i (view self h) of (st, r) \<Rightarrow> (put self st h, r))"
  by (simp add: eval_expr_at_def eval_expr_def get_vars_view error_at_put put_view
      split: sum.splits option.splits)

lemma apply_op_at_sim:
  "owns self h \<Longrightarrow> apply_op_at op lv rv i self h =
     (case apply_op op lv rv i (view self h) of (st, r) \<Rightarrow> (put self st h, r))"
  by (simp add: apply_op_at_def apply_op_def error_at_put put_view split: sum.splits)

lemma eval_condition_at_sim:
  "owns self h \<Longrightarrow> eval_condition_at c i self h =
     (case eval_condition c i (view self h) of (st, r) \<Rightarrow> (put self st h, r))"
  by (simp add: eval_condition_at_def eval_condition_def eval_expr_at_sim apply_op_at_sim
      error_at_put lens Let_def split: option.splits prod.splits)

lemma assign_stmt_at_sim:
  "owns self h \<Longrightarrow> assign_stmt_at in_if name e i self h =
     map_sum id (\<lambda>st. put self st h) (assign_stmt in_if name e i (view self h))"
  by (simp add: assign_stmt_at_def assign_stmt_def get_vars_view eval_expr_at_sim error_at_put
      set_var_put lens split: option.splits prod.splits sum.splits)

lemma output_stmt_at_sim:
  "owns self h \<Longrightarrow> output_stmt_at payload i self h =
     map_sum id (\<lambda>st. put self st h) (output_stmt payload i (view self h))"
  by (simp add: output_stmt_at_def output_stmt_def eval_expr_at_sim append_output_put lens
      split: option.splits prod.splits sum.splits)

lemma if_stmt_at_sim:
  assumes "owns self h"
  shows "if_stmt_at c stmt i self h =
     map_sum id (\<lambda>st. put self st h) (if_stmt c stmt i (view self h))"
proof -
  obtain st1 r where c: "eval_condition c i (view self h) = (st1, r)"
    by (cases "eval_condition c i (view self h)")
  have c_at: "eval_condition_at c i self h = (put self st1 h, r)"
    using assms c by (simp add: eval_condition_at_sim)
  have o1: "owns self (put self st1 h)" by (rule owns_put [OF assms])
  have v1: "view self (put self st1 h) = st1" by (rule view_put [OF assms])
  have pp: "put self st (put self st1 h) = put self st h" for st by (rule put_put [OF assms])
  show ?thesis
    unfolding if_stmt_at_def if_stmt_def c c_at
    by (simp add: assign_stmt_at_sim [OF o1] output_stmt_at_sim [OF o1] error_at_put [OF o1]
        v1 pp split: option.splits)
qed

lemma process_line_at_sim:
  "owns self h \<Longrightarrow> process_line_at i l self h =
     map_sum id (\<lambda>st. put self st h) (process_line i l (view self h))"
  by (simp add: process_line_at_def process_line_def get_vars_view assign_stmt_at_sim
      output_stmt_at_sim if_stmt_at_sim error_at_put set_var_put lens Let_def
      split: option.splits)

lemma run_lines_at_sim:
  "owns self h \<Longrightarrow> run_lines_at i ls self h =
     map_sum id (\<lambda>st. put self st h) (run_lines i ls (view self h))"
proof (induction ls arbitrary: i h)
  case Nil
  then show ?case by (simp add: put_view)
next
  case (Cons l ls)
  show ?case
  proof (cases "process_line i l (view self h)")
    case (Inl ex)
    with Cons.prems show ?thesis by (simp add: process_line_at_sim)
  next
    case (Inr st1)
    with Cons.prems have "process_line_at i l self h = Inr (put self st1 h)"
      by (simp add: process_line_at_sim)
    moreover from Cons.prems have "owns self (put self st1 h)" by (rule owns_put)
    ultimately show ?thesis
      using Cons.IH [of "put self st1 h" "Suc i"] Cons.prems Inr
      by (simp add: lens)
  qed
qed

lemma parse_and_run_at_sim:
  "owns self h \<Longrightarrow> parse_and_run_at self h =
     map_sum id (\<lambda>st. put self st h) (parse_and_run (view self h))"
  by (simp add: parse_and_run_at_def parse_and_run_def run_lines_at_sim) (simp add: view_def)

text \<open>A run in any store: the new object is made of four new addresses, and the store
  it leaves is the old one, unchanged, followed by the four objects of the run.\<close>

lemma Interpreter_new_eq:
  "Interpreter_new source_text h = (refs_from (length h), h @ cells (Interpreter_init source_text))"
  by (simp add: Interpreter_new_def new_obj_def refs_from_def cells_def Interpreter_init_def)

lemma owns_new: "owns (refs_from (length h)) (h @ cells st)"
  by (simp add: owns_def refs_from_def cells_def nth_append)

lemma view_new: "view (refs_from (length h)) (h @ cells st) = st"
  by (simp add: store_defs refs_from_def cells_def nth_append)

lemma put_new: "put (refs_from (length h)) st' (h @ cells st) = h @ cells st'"
  by (simp add: put_def refs_from_def cells_def list_update_append)

lemma run_at_run:
  "run_at source_text h =
     map_sum id (\<lambda>st. (refs_from (length h), h @ cells st)) (run source_text)"
  by (cases "run source_text")
    (simp_all add: run_at_def Interpreter_new_eq parse_and_run_at_sim [OF owns_new] view_new put_new
      run_def)

lemma view_fields:
  "outputs (view self h) = get_outputs self h" "errors (view self h) = get_errors self h"
  by (simp_all add: view_def)

lemma older_object_untouched:
  assumes "n + 3 < length h"
  shows "get_outputs (refs_from n) (h @ xs) = get_outputs (refs_from n) h"
    and "get_errors (refs_from n) (h @ xs) = get_errors (refs_from n) h"
  using assms by (simp_all add: get_outputs_def get_errors_def refs_from_def nth_append)

lemma second_run_same_report:
  assumes "run_at source_text h = Inr (a, h1)"
  shows "\<exists>b h2. run_at source_text h1 = Inr (b, h2) \<and>
     get_outputs b h2 = get_outputs a h1 \<and> get_errors b h2 = get_errors a h1 \<and>
     get_outputs a h2 = get_outputs a h1 \<and> get_errors a h2 = get_errors a h1"
proof -
  from assms obtain st where st: "run source_text = Inr st"
    and a: "a = refs_from (length h)" and h1: "h1 = h @ cells st"
    by (cases "run source_text") (auto simp: run_at_run)
  let ?b = "refs_from (length h1)" and ?h2 = "h1 @ cells st"
  have second: "run_at source_text h1 = Inr (?b, ?h2)"
    by (simp add: run_at_run st)
  have va: "view a h1 = st" unfolding a h1 by (rule view_new)
  have vb: "view ?b ?h2 = st" by (rule view_new)
  have len: "length h + 3 < length h1" by (simp add: h1 cells_def)
  have "get_outputs ?b ?h2 = get_outputs a h1" "get_errors ?b ?h2 = get_errors a h1"
    using arg_cong [OF va, of outputs] arg_cong [OF vb, of outputs]
      arg_cong [OF va, of errors] arg_cong [OF vb, of errors]
    by (simp_all add: view_fields)
  moreover have "get_outputs a ?h2 = get_outputs a h1" "get_errors a ?h2 = get_errors a h1"
    unfolding a by (rule older_object_untouched [OF len])+
  ultimately show ?thesis using second by blast
qed

text \<open>
  Claim C9. In any store, if a run on a source text ends with no diagnostics, then a
  second run on the same text, made in the store that the first run has left, ends too,
  with the same outputs and no diagnostics; and the outputs and diagnostics of the first
  object are still what they were. The runs share no state: the second \<open>Interpreter\<close>
  is made of new objects, and \<open>parse_and_run\<close> reads and writes the objects of \<open>self\<close>
  only.
\<close>

theorem run_twice_same_report:
  assumes "run_at source_text h = Inr (a, h1)" and "get_errors a h1 = []"
  shows "\<exists>b h2. run_at source_text h1 = Inr (b, h2) \<and>
     get_outputs b h2 = get_outputs a h1 \<and> get_errors b h2 = [] \<and>
     get_outputs a h2 = get_outputs a h1 \<and> get_errors a h2 = []"
  using second_run_same_report [OF assms(1)] assms(2) by auto

theorem run_twice_same_report_witness:
  "run_at ''output << 1;'' [] =
     Inr (\<lparr>lines_at = 0, vars_at = 1, errors_at = 2, outputs_at = 3\<rparr>,
          [Lines [''output << 1;''], Dict Map.empty, Errors [], Outputs [''1'']]) \<and>
   get_errors \<lparr>lines_at = 0, vars_at = 1, errors_at = 2, outputs_at = 3\<rparr>
     [Lines [''output << 1;''], Dict Map.empty, Errors [], Outputs [''1'']] = [] \<and>
   run_at ''output << 1;'' [Lines [''output << 1;''], Dict Map.empty, Errors [], Outputs [''1'']] =
     Inr (\<lparr>lines_at = 4, vars_at = 5, errors_at = 6, outputs_at = 7\<rparr>,
          [Lines [''output << 1;''], Dict Map.empty, Errors [], Outputs [''1''],
           Lines [''output << 1;''], Dict Map.empty, Errors [], Outputs [''1'']])"
proof -
  let ?a = "\<lparr>lines_at = 0, vars_at = 1, errors_at = 2, outputs_at = 3\<rparr>"
  let ?h = "[Lines [''output << 1;''], Dict Map.empty, Errors [], Outputs [''1'']]"
  have a: "run_at ''output << 1;'' [] = Inr (?a, ?h)"
    by (simp add: evals store_eval)
  have b: "get_errors ?a ?h = []" by (simp add: get_errors_def)
  have c: "run_at ''output << 1;'' ?h =
     Inr (\<lparr>lines_at = 4, vars_at = 5, errors_at = 6, outputs_at = 7\<rparr>, ?h @ ?h)"
    by (simp add: evals store_eval)
  from run_twice_same_report [OF a b] a b c show ?thesis by simp
qed

text \<open>
  Claim C3 fails on the code: the conversion \<open>float(val)\<close> of an assignment to a
  \<open>double\<close> is outside any \<open>try\<close> (its sibling for \<open>integer\<close> is inside one), so a
  value that is not a number (\<open>()\<close>) raises out of \<open>parse_and_run\<close> and the third line
  is never processed.
\<close>

theorem uncaught_conversion_aborts_run:
  "run (''y: double;'' @ [CHR 0x0A] @ ''y := ();'' @ [CHR 0x0A] @ ''output << 1;'') = Inl TypeError"
  by (simp add: evals)

text \<open>Apart from that abort the run behaves as described: a run that completes has
  processed every line and has recorded at most one diagnostic for each line.\<close>

lemma one_diagnostic_per_line:
  assumes "run source_text = Inr st"
  shows "length (filter (\<lambda>e. fst e = k) (errors st)) \<le> 1"
proof -
  from assms have "run_lines 1 (splitlines source_text) (Interpreter_init source_text) = Inr st"
    by (simp add: run_def parse_and_run_def Interpreter_init_def)
  from run_lines_errors [OF this] obtain es where es: "errors st = es"
    and "sorted_wrt (<) (map fst es)"
    by (auto simp: Interpreter_init_def)
  then have "distinct (map fst es)"
    by (simp add: strict_sorted_iff)
  from distinct_filter_le_one [OF this, of k] show ?thesis
    by (simp add: es)
qed

text \<open>
  Claim C4 fails on the code by the same defect: the run is aborted at line 2, so the
  second declaration of \<open>x\<close> at line 3 is never reached and no "redeclared" diagnostic
  is recorded.
\<close>

theorem redeclaration_unreported_after_abort:
  "run (''x: double;'' @ [CHR 0x0A] @ ''x := ();'' @ [CHR 0x0A] @ ''x: integer;'') = Inl TypeError"
  by (simp add: evals)

text \<open>Apart from that abort the declarations behave as described: when a run completes
  on a program with exactly two declarations of a name, it has recorded exactly one
  "redeclared" diagnostic for it, at the line of the second declaration, and the variable
  has the type of the first declaration.\<close>

lemma run_lines_no_declaration:
  assumes "\<forall>l \<in> set ls. \<forall>t. declaration_of l \<noteq> Some (name, t)"
    and "run_lines i ls st = Inr st'"
  shows "(vars st' name = None \<longleftrightarrow> vars st name = None) \<and>
    (\<forall>t v. vars st name = Some (t, v) \<longrightarrow> (\<exists>v'. vars st' name = Some (t, v'))) \<and>
    filter (\<lambda>e. snd e = Redeclared name) (errors st') =
      filter (\<lambda>e. snd e = Redeclared name) (errors st)"
  using assms
proof (induction ls arbitrary: i st)
  case Nil
  then show ?case by simp
next
  case (Cons l ls)
  from Cons.prems(2) obtain st1 where 1: "process_line i l st = Inr st1"
    and 2: "run_lines (Suc i) ls st1 = Inr st'"
    by (auto split: sum.splits)
  from Cons.prems(1) have nd: "\<forall>t. declaration_of l \<noteq> Some (name, t)"
    and rest: "\<forall>l \<in> set ls. \<forall>t. declaration_of l \<noteq> Some (name, t)" by auto
  note ih = Cons.IH [OF rest 2]
  from process_line_step [OF 1] nd
  have a: "vars st1 name = None \<longleftrightarrow> vars st name = None"
    and b: "\<forall>t v. vars st name = Some (t, v) \<longrightarrow> (\<exists>v'. vars st1 name = Some (t, v'))"
    and c: "filter (\<lambda>e. snd e = Redeclared name) (errors st1) =
      filter (\<lambda>e. snd e = Redeclared name) (errors st)"
    by auto
  from a b c ih show ?case by (metis (no_types, lifting))
qed

lemma redeclared_once:
  assumes lines: "splitlines source_text = pre @ l1 # mid @ l2 # post"
    and d1: "declaration_of l1 = Some (name, t1)"
    and d2: "declaration_of l2 = Some (name, t2)"
    and others: "\<forall>l \<in> set (pre @ mid @ post). \<forall>t. declaration_of l \<noteq> Some (name, t)"
    and run: "run source_text = Inr st"
  shows "filter (\<lambda>e. snd e = Redeclared name) (errors st) =
      [(length pre + length mid + 2, Redeclared name)] \<and>
    (\<exists>v. vars st name = Some (t1, v))"
proof -
  let ?R = "\<lambda>s. filter (\<lambda>e. snd e = Redeclared name) (errors s)"
  let ?st0 = "Interpreter_init source_text"
  have st0: "vars ?st0 name = None" "?R ?st0 = []" by (simp_all add: Interpreter_init_def)
  from run lines have r: "run_lines 1 (pre @ l1 # mid @ l2 # post) ?st0 = Inr st"
    by (simp add: run_def parse_and_run_def Interpreter_init_def)
  then obtain s1 where s1: "run_lines 1 pre ?st0 = Inr s1"
    and r1: "run_lines (1 + length pre) (l1 # mid @ l2 # post) s1 = Inr st"
    by (auto simp: run_lines_append split: sum.splits)
  from others have "\<forall>l \<in> set pre. \<forall>t. declaration_of l \<noteq> Some (name, t)" by auto
  from run_lines_no_declaration [OF this s1] st0
  have v1: "vars s1 name = None" and e1: "?R s1 = []" by auto
  from r1 obtain s2 where s2: "process_line (1 + length pre) l1 s1 = Inr s2"
    and r2: "run_lines (2 + length pre) (mid @ l2 # post) s2 = Inr st"
    by (auto split: sum.splits)
  from s2 v1 have "s2 = s1\<lparr>vars := (vars s1)(name \<mapsto> (t1, None))\<rparr>"
    by (simp add: process_line_declaration [OF d1])
  with e1 have v2: "vars s2 name = Some (t1, None)" and e2: "?R s2 = []" by simp_all
  from r2 obtain s3 where s3: "run_lines (2 + length pre) mid s2 = Inr s3"
    and r3: "run_lines (2 + length pre + length mid) (l2 # post) s3 = Inr st"
    by (auto simp: run_lines_append split: sum.splits)
  from others have "\<forall>l \<in> set mid. \<forall>t. declaration_of l \<noteq> Some (name, t)" by auto
  from run_lines_no_declaration [OF this s3] v2 e2
  obtain v3 where v3: "vars s3 name = Some (t1, v3)" and e3: "?R s3 = []" by auto
  from r3 obtain s4 where s4: "process_line (2 + length pre + length mid) l2 s3 = Inr s4"
    and r4: "run_lines (Suc (2 + length pre + length mid)) post s4 = Inr st"
    by (auto split: sum.splits)
  from s4 v3 have "s4 = error (Redeclared name) (2 + length pre + length mid) s3"
    by (simp add: process_line_declaration [OF d2])
  with v3 e3 have v4: "vars s4 name = Some (t1, v3)"
    and e4: "?R s4 = [(2 + length pre + length mid, Redeclared name)]"
    by (simp_all add: error_def)
  from others have "\<forall>l \<in> set post. \<forall>t. declaration_of l \<noteq> Some (name, t)" by auto
  from run_lines_no_declaration [OF this r4] v4 e4 show ?thesis
    by (auto simp: add.commute add.left_commute)
qed

section \<open>End-to-end scenario B\<close>

text \<open>
  Claim C2. Running the interpreter on the three lines \<open>y: double;\<close>,
  \<open>if (1 < 2) y := 10 - 3;\<close>, \<open>output << y;\<close> produces exactly the output sequence
  \<open>["7"]\<close> and no diagnostics: the assignment stores the double \<open>7.0\<close>, the output
  statement substitutes its text \<open>7.0\<close>, and a whole-valued double is displayed without
  decimals.
\<close>

theorem scenario_B:
  "report (run (''y: double;'' @ [CHR 0x0A] @ ''if (1 < 2) y := 10 - 3;'' @ [CHR 0x0A] @
      ''output << y;'')) = Inr ([''7''], [])"
  by (simp add: evals)

end
